theory Spec2Isabelle
  imports Complex_Main "HOL-Library.AList" "HOL-Library.Multiset"
begin

section \<open>JavaScript values used by the exporter\<close>

text \<open>
  The model follows \<open>history-export/src/exporter.ts\<close>, the class \<open>HistoryExporter\<close>.
  Lines written to the console are left out.
\<close>

text \<open>
  Strings are \<^typ>\<open>string\<close>; each character stands for one UTF-16 code unit in the range
  U+0000 .. U+00FF, so the strings covered are the Latin-1 ones. An optional property
  (\<open>ts?: string\<close>) is an \<^typ>\<open>'a option\<close>, with \<open>None\<close> for \<open>undefined\<close>.
\<close>

text \<open>\<open>a || b\<close> on strings: \<open>undefined\<close> and the empty string are falsy.\<close>

fun orElse :: "string option \<Rightarrow> string \<Rightarrow> string" where
  "orElse (Some (c # cs)) b = c # cs"
| "orElse _ b = b"

text \<open>The value of a string in a condition (\<open>if (cached)\<close>): the string when it is truthy.\<close>

fun truthy :: "string option \<Rightarrow> string option" where
  "truthy (Some (c # cs)) = Some (c # cs)"
| "truthy _ = None"

text \<open>\<open>a ?? b\<close>: only \<open>undefined\<close> gives way to the default.\<close>

fun nullish :: "'a option \<Rightarrow> 'a \<Rightarrow> 'a" where
  "nullish (Some a) b = a"
| "nullish None b = b"

text \<open>
  White space and line terminators of ECMAScript among the code units below 256:
  TAB, LF, VT, FF, CR, SP and NBSP. \<open>String.prototype.trim\<close> strips them at both ends.
\<close>

definition isWhiteSpace :: "char \<Rightarrow> bool" where
  "isWhiteSpace c \<longleftrightarrow> c \<in> set [CHR 0x09, CHR 0x0A, CHR 0x0B, CHR 0x0C, CHR 0x0D, CHR 0x20, CHR 0xA0]"

definition trim :: "string \<Rightarrow> string" where
  "trim s = rev (dropWhile isWhiteSpace (rev (dropWhile isWhiteSpace s)))"

text \<open>
  Numbers: the not-a-number value, the two infinities and the finite values. Finite values
  are exact rationals: the rounding of IEEE-754 doubles is not part of the model.
\<close>

datatype number = NaN | Num rat | PosInf | NegInf

text \<open>\<open>a - b\<close> and \<open>a * 1000\<close>, \<open>a / 1000\<close> on numbers.\<close>

fun minus_number :: "number \<Rightarrow> number \<Rightarrow> number" where
  "minus_number (Num a) (Num b) = Num (a - b)"
| "minus_number NaN _ = NaN"
| "minus_number _ NaN = NaN"
| "minus_number PosInf PosInf = NaN"
| "minus_number NegInf NegInf = NaN"
| "minus_number PosInf _ = PosInf"
| "minus_number NegInf _ = NegInf"
| "minus_number (Num a) PosInf = NegInf"
| "minus_number (Num a) NegInf = PosInf"

fun scale_number :: "rat \<Rightarrow> number \<Rightarrow> number" where
  "scale_number k (Num a) = Num (k * a)"
| "scale_number k n = n"

text \<open>
  \<open>parseFloat\<close>: leading white space is skipped, then the longest prefix that is a
  decimal literal is read (sign, \<open>Infinity\<close>, digits, fraction, exponent); no such
  prefix gives \<open>NaN\<close>.
\<close>

definition isDigit :: "char \<Rightarrow> bool" where
  "isDigit c \<longleftrightarrow> 48 \<le> (of_char c :: int) \<and> (of_char c :: int) \<le> 57"

definition digitsValue :: "string \<Rightarrow> int" where
  "digitsValue ds = foldl (\<lambda>a c. 10 * a + ((of_char c :: int) - 48)) 0 ds"

fun readSign :: "string \<Rightarrow> bool \<times> string" where
  "readSign [] = (False, [])"
| "readSign (c # cs) =
     (if c = CHR ''-'' then (True, cs) else if c = CHR ''+'' then (False, cs) else (False, c # cs))"

fun readExponent :: "string \<Rightarrow> int" where
  "readExponent [] = 0"
| "readExponent (c # cs) =
     (if c = CHR ''e'' \<or> c = CHR ''E'' then
        (case readSign cs of
           (neg, ds) \<Rightarrow>
             (let e = digitsValue (takeWhile isDigit ds)
              in if takeWhile isDigit ds = [] then 0 else if neg then - e else e))
      else 0)"

definition parseFloat :: "string \<Rightarrow> number" where
  "parseFloat str =
     (case readSign (dropWhile isWhiteSpace str) of
        (neg, s) \<Rightarrow>
          if take 8 s = ''Infinity'' then (if neg then NegInf else PosInf)
          else
            (let ip = takeWhile isDigit s;
                 r1 = dropWhile isDigit s;
                 fp = (case r1 of [] \<Rightarrow> [] | c # cs \<Rightarrow> if c = CHR ''.'' then takeWhile isDigit cs else []);
                 r2 = (case r1 of [] \<Rightarrow> [] | c # cs \<Rightarrow> if c = CHR ''.'' then dropWhile isDigit cs else r1)
             in if ip = [] \<and> fp = [] then NaN
                else
                  (let m = (of_int (digitsValue (ip @ fp)) :: rat) / 10 ^ length fp;
                       v = m * 10 powi readExponent r2
                   in Num (if neg then - v else v))))"

text \<open>
  A \<open>Date\<close> holds a time value in milliseconds or is invalid. \<open>new Date(x)\<close> clips:
  a value that is not finite or beyond 8.64e15 in magnitude is invalid, any other is
  truncated to an integer.
\<close>

datatype Date = InvalidDate | TimeValue int

fun newDate :: "number \<Rightarrow> Date" where
  "newDate (Num a) =
     (if \<bar>a\<bar> \<le> 8640000000000000 then TimeValue (if a < 0 then - \<lfloor>- a\<rfloor> else \<lfloor>a\<rfloor>)
      else InvalidDate)"
| "newDate _ = InvalidDate"

fun getTime :: "Date \<Rightarrow> number" where
  "getTime (TimeValue t) = Num (of_int t)"
| "getTime InvalidDate = NaN"

section \<open>Records delivered by the remote API\<close>

record SlackMessage =
  msg_ts :: "string option"
  msg_user :: "string option"
  msg_bot_id :: "string option"
  msg_username :: "string option"
  msg_text :: "string option"
  msg_thread_ts :: "string option"
  msg_reply_count :: "int option"

record Profile =
  display_name :: "string option"
  profile_real_name :: "string option"

record SlackUser =
  user_id :: "string option"
  user_real_name :: "string option"
  user_profile :: "Profile option"

record MessageWithReplies =
  message :: SlackMessage
  replies :: "SlackMessage list"

text \<open>
  A call of the client either resolves with a response envelope or rejects with a coded
  error; \<open>isRateLimitError\<close> tells the rate-limit code from the others.
\<close>

datatype CodedError = RateLimitedError | OtherError

datatype 'a remote = Resolves 'a | Rejects CodedError

record UsersInfoResponse =
  info_ok :: bool
  info_error :: "string option"
  info_user :: "SlackUser option"

text \<open>What the program throws: \<open>new Error(message)\<close>, a rejected client call, a \<open>RangeError\<close>.\<close>

datatype exn = Error string | ClientError CodedError | RangeError

section \<open>The exporter's state\<close>

text \<open>
  The three \<open>Map\<close>s of the class are association lists in insertion order
  (\<open>Map.set\<close> is \<^const>\<open>AList.update\<close>, \<open>Map.get\<close> is \<^const>\<open>map_of\<close>). The two
  snapshot files are held as the records that \<open>JSON.parse\<close> reads back, \<open>None\<close> when the
  file is missing or unreadable. \<open>requests\<close> is the trace of the calls made to the remote
  API, oldest first.
\<close>

record ChannelCacheFile =
  channels_updatedAt :: string
  channels_map :: "(string \<times> string) list"

record UserCacheFile =
  users_updatedAt :: string
  users_map :: "(string \<times> string) list"

datatype request =
    ConversationsList "string option"
  | ConversationsHistory string "string option" "number option" "number option"
  | ConversationsReplies string string "string option"
  | ConversationsInfo string
  | UsersList "string option"
  | UsersInfo string

record state =
  userCache :: "(string \<times> string) list"
  channelNameToIdCache :: "(string \<times> string) list"
  channelIdToNameCache :: "(string \<times> string) list"
  channelCacheFile :: "ChannelCacheFile option"
  userCacheFile :: "UserCacheFile option"
  requests :: "request list"

text \<open>
  How a call of an asynchronous method ends: it returns a value, it throws, or it never
  settles because the remote gives no further answer. The state is the one reached then.
\<close>

datatype 'a outcome = Returns 'a state | Throws exn state | Hangs

definition called :: "request \<Rightarrow> state \<Rightarrow> state" where
  "called r s = s\<lparr>requests := requests s @ [r]\<rparr>"

definition setUserCache :: "string \<Rightarrow> string \<Rightarrow> state \<Rightarrow> state" where
  "setUserCache k v s = s\<lparr>userCache := AList.update k v (userCache s)\<rparr>"

section \<open>User names\<close>

definition extractDisplayName :: "SlackUser \<Rightarrow> string" where
  "extractDisplayName u =
     (let profile = user_profile u in
      orElse (map_option trim (Option.bind profile display_name))
        (orElse (map_option trim (Option.bind profile profile_real_name))
          (orElse (user_real_name u)
            (orElse (user_id u) ''unknown''))))"

text \<open>
  The \<open>try\<close> block of \<open>getUserName\<close>: the single-item lookup and the name selection.
  A rejected call leaves the block as an exception.
\<close>

definition getUserName_try :: "(string \<Rightarrow> UsersInfoResponse remote) \<Rightarrow> string \<Rightarrow> state \<Rightarrow> string outcome" where
  "getUserName_try users_info userId s =
     (let s1 = called (UsersInfo userId) s in
      case users_info userId of
        Rejects err \<Rightarrow> Throws (ClientError err) s1
      | Resolves response \<Rightarrow>
          (case (if info_ok response then info_user response else None) of
             None \<Rightarrow> Returns userId (setUserCache userId userId s1)
           | Some u \<Rightarrow>
               (let profile = user_profile u;
                    displayName =
                      orElse (map_option trim (Option.bind profile display_name))
                        (orElse (map_option trim (Option.bind profile profile_real_name))
                          (orElse (user_real_name u) userId))
                in Returns displayName (setUserCache userId displayName s1))))"

text \<open>
  The cache test, then the \<open>try\<close> block with its \<open>catch\<close> handler. The handler treats
  every error alike, but for a warning that it logs on the rate-limit code.
\<close>

definition getUserName :: "(string \<Rightarrow> UsersInfoResponse remote) \<Rightarrow> string \<Rightarrow> state \<Rightarrow> string outcome" where
  "getUserName users_info userId s =
     (case truthy (map_of (userCache s) userId) of
        Some cached \<Rightarrow> Returns cached s
      | None \<Rightarrow>
          (case getUserName_try users_info userId s of
             Throws err s1 \<Rightarrow> Returns userId (setUserCache userId userId s1)
           | done \<Rightarrow> done))"

definition resolveUserName :: "(string \<Rightarrow> UsersInfoResponse remote) \<Rightarrow> SlackMessage \<Rightarrow> state \<Rightarrow> string outcome" where
  "resolveUserName users_info m s =
     (case truthy (msg_user m) of
        Some u \<Rightarrow> getUserName users_info u s
      | None \<Rightarrow>
          (case truthy (msg_bot_id m) of
             Some b \<Rightarrow> Returns (orElse (msg_username m) (''bot:'' @ b)) s
           | None \<Rightarrow> Returns ''unknown'' s))"

section \<open>Delimited output: escaping\<close>

text \<open>\<open>text.replace(/\r\n|\r|\n/g, " ")\<close>: a CR LF pair becomes one space.\<close>

fun collapseNewlines :: "string \<Rightarrow> string" where
  "collapseNewlines [] = []"
| "collapseNewlines (c # cs) =
     (if c = CHR 0x0D then
        (case cs of
           d # ds \<Rightarrow> if d = CHR 0x0A then CHR 0x20 # collapseNewlines ds
                     else CHR 0x20 # collapseNewlines cs
         | [] \<Rightarrow> [CHR 0x20])
      else if c = CHR 0x0A then CHR 0x20 # collapseNewlines cs
      else c # collapseNewlines cs)"

definition sanitizeText :: "string \<Rightarrow> string" where
  "sanitizeText t = trim (collapseNewlines t)"

definition needsQuotes :: "string \<Rightarrow> bool" where
  "needsQuotes v \<longleftrightarrow> (\<exists>c \<in> set v. c = CHR 0x22 \<or> c = CHR '','' \<or> c = CHR 0x0A)"

definition doubleQuotes :: "string \<Rightarrow> string" where
  "doubleQuotes v = concat (map (\<lambda>c. if c = CHR 0x22 then [CHR 0x22, CHR 0x22] else [c]) v)"

definition escapeCsv :: "string \<Rightarrow> string" where
  "escapeCsv v =
     (if needsQuotes v then [CHR 0x22] @ doubleQuotes v @ [CHR 0x22] else doubleQuotes v)"

section \<open>Paged collections\<close>

text \<open>
  The envelope of a list call: \<open>ok\<close>, \<open>error\<close>, the payload array (\<open>messages\<close>,
  \<open>channels\<close> or \<open>members\<close>) and \<open>response_metadata.next_cursor\<close>. The remote side of a
  paged collection is the list of its answers to the successive calls of one run; when
  the list is used up the next call never settles.
\<close>

record 'a page =
  page_ok :: bool
  page_error :: "string option"
  page_items :: "'a list option"
  next_cursor :: "string option"

type_synonym 'a pages = "'a page remote list"

subsection \<open>Message history\<close>

text \<open>The \<open>do ... while (cursor)\<close> loop of \<open>fetchHistory\<close>.\<close>

fun fetchHistory_loop ::
  "SlackMessage pages \<Rightarrow> string \<Rightarrow> number option \<Rightarrow> number option \<Rightarrow>
   string option \<Rightarrow> SlackMessage list \<Rightarrow> state \<Rightarrow> SlackMessage list outcome" where
  "fetchHistory_loop [] channelId oldest latest cursor messages s = Hangs"
| "fetchHistory_loop (r # rs) channelId oldest latest cursor messages s =
     (let s1 = called (ConversationsHistory channelId cursor oldest latest) s in
      case r of
        Rejects err \<Rightarrow> Throws (ClientError err) s1
      | Resolves response \<Rightarrow>
          if \<not> page_ok response then
            Throws (Error (''Failed to fetch history: '' @ nullish (page_error response) ''unknown_error'')) s1
          else
            (let messages1 = (case page_items response of Some ms \<Rightarrow> messages @ ms | None \<Rightarrow> messages);
                 cursor1 = truthy (next_cursor response)
             in if cursor1 \<noteq> None then fetchHistory_loop rs channelId oldest latest cursor1 messages1 s1
                else Returns messages1 s1))"

text \<open>
  \<open>messages.sort((a, b) => parseFloat(a.ts ?? "0") - parseFloat(b.ts ?? "0"))\<close>.
  \<open>Array.prototype.sort\<close> is stable and puts \<open>a\<close> after \<open>b\<close> only when the comparator is
  positive (a \<open>NaN\<close> comparison counts as zero), which insertion from the right computes.
  When some \<open>ts\<close> is not a number the comparator is no order any more and engines may
  differ; the model keeps the insertion order then.
\<close>

definition compareTs :: "SlackMessage \<Rightarrow> SlackMessage \<Rightarrow> number" where
  "compareTs a b =
     minus_number (parseFloat (nullish (msg_ts a) ''0'')) (parseFloat (nullish (msg_ts b) ''0''))"

fun positive :: "number \<Rightarrow> bool" where
  "positive (Num a) = (0 < a)"
| "positive PosInf = True"
| "positive _ = False"

fun insertBy :: "('a \<Rightarrow> 'a \<Rightarrow> number) \<Rightarrow> 'a \<Rightarrow> 'a list \<Rightarrow> 'a list" where
  "insertBy cmp x [] = [x]"
| "insertBy cmp x (y # ys) = (if positive (cmp x y) then y # insertBy cmp x ys else x # y # ys)"

definition sortBy :: "('a \<Rightarrow> 'a \<Rightarrow> number) \<Rightarrow> 'a list \<Rightarrow> 'a list" where
  "sortBy cmp xs = foldr (insertBy cmp) xs []"

text \<open>
  \<open>history channelId oldest latest\<close> is the remote's list of answers for a run with these
  arguments. The bounds are sent as the decimal strings of the numbers \<open>oldest\<close> and
  \<open>latest\<close>.
\<close>

definition fetchHistory ::
  "(string \<Rightarrow> number option \<Rightarrow> number option \<Rightarrow> SlackMessage pages) \<Rightarrow>
   string \<Rightarrow> Date option \<Rightarrow> Date option \<Rightarrow> state \<Rightarrow> SlackMessage list outcome" where
  "fetchHistory history channelId startDate endDate s =
     (let oldest = map_option (\<lambda>d. scale_number (1 / 1000) (getTime d)) startDate;
          latest = map_option (\<lambda>d. scale_number (1 / 1000) (getTime d)) endDate
      in case fetchHistory_loop (history channelId oldest latest) channelId oldest latest None [] s of
           Returns messages s1 \<Rightarrow> Returns (sortBy compareTs messages) s1
         | failed \<Rightarrow> failed)"

subsection \<open>Thread replies\<close>

fun fetchThreadReplies_loop ::
  "SlackMessage pages \<Rightarrow> string \<Rightarrow> string \<Rightarrow> string option \<Rightarrow> SlackMessage list \<Rightarrow> state \<Rightarrow>
   SlackMessage list outcome" where
  "fetchThreadReplies_loop [] channelId threadTs cursor collected s = Hangs"
| "fetchThreadReplies_loop (r # rs) channelId threadTs cursor collected s =
     (let s1 = called (ConversationsReplies channelId threadTs cursor) s in
      case r of
        Rejects err \<Rightarrow> Throws (ClientError err) s1
      | Resolves response \<Rightarrow>
          if \<not> page_ok response then
            Throws (Error (''Failed to fetch thread replies: '' @ nullish (page_error response) ''unknown_error'')) s1
          else
            (let collected1 = (case page_items response of Some ms \<Rightarrow> collected @ ms | None \<Rightarrow> collected);
                 cursor1 = truthy (next_cursor response)
             in if cursor1 \<noteq> None then fetchThreadReplies_loop rs channelId threadTs cursor1 collected1 s1
                else Returns collected1 s1))"

definition fetchThreadReplies ::
  "(string \<Rightarrow> string \<Rightarrow> SlackMessage pages) \<Rightarrow> string \<Rightarrow> string \<Rightarrow> state \<Rightarrow> SlackMessage list outcome" where
  "fetchThreadReplies thread channelId threadTs s =
     (case fetchThreadReplies_loop (thread channelId threadTs) channelId threadTs None [] s of
        Returns collected s1 \<Rightarrow> Returns (filter (\<lambda>msg. msg_ts msg \<noteq> Some threadTs) collected) s1
      | failed \<Rightarrow> failed)"

text \<open>
  The body of the \<open>for\<close> loop of \<open>expandThreads\<close> for one message, and the loop. The
  100 ms pause between two thread fetches and the progress lines are left out.
\<close>

definition threadRepliesOf ::
  "(string \<Rightarrow> string \<Rightarrow> SlackMessage pages) \<Rightarrow> string \<Rightarrow> SlackMessage \<Rightarrow> state \<Rightarrow> SlackMessage list outcome" where
  "threadRepliesOf thread channelId m s =
     (case truthy (msg_thread_ts m) of
        None \<Rightarrow> Returns [] s
      | Some thread_ts \<Rightarrow>
          (case msg_reply_count m of
             None \<Rightarrow> Returns [] s
           | Some reply_count \<Rightarrow>
               if reply_count \<noteq> 0 \<and> reply_count > 0 then fetchThreadReplies thread channelId thread_ts s
               else Returns [] s))"

fun expandThreads_loop ::
  "(string \<Rightarrow> string \<Rightarrow> SlackMessage pages) \<Rightarrow> string \<Rightarrow> SlackMessage list \<Rightarrow>
   MessageWithReplies list \<Rightarrow> state \<Rightarrow> MessageWithReplies list outcome" where
  "expandThreads_loop thread channelId [] result s = Returns result s"
| "expandThreads_loop thread channelId (m # ms) result s =
     (case threadRepliesOf thread channelId m s of
        Returns rs s1 \<Rightarrow>
          expandThreads_loop thread channelId ms (result @ [\<lparr>message = m, replies = rs\<rparr>]) s1
      | Throws e s1 \<Rightarrow> Throws e s1
      | Hangs \<Rightarrow> Hangs)"

definition expandThreads ::
  "(string \<Rightarrow> string \<Rightarrow> SlackMessage pages) \<Rightarrow> string \<Rightarrow> SlackMessage list \<Rightarrow> state \<Rightarrow>
   MessageWithReplies list outcome" where
  "expandThreads thread channelId messages s = expandThreads_loop thread channelId messages [] s"

section \<open>Channel index\<close>

record Channel =
  channel_id :: "string option"
  channel_name :: "string option"

record ChannelInfo =
  info_id :: string
  info_name :: string

text \<open>
  A plain object used as a dictionary (\<open>Record<string, string>\<close>) is an association list,
  \<open>obj[k] = v\<close> being \<^const>\<open>AList.update\<close>. Keys are taken not to be names that
  \<open>Object.prototype\<close> defines, and the place that integer-like keys take in the
  enumeration order is not modelled: snapshots are compared as mappings.
\<close>

definition loadChannelCacheFromFile :: "state \<Rightarrow> ChannelCacheFile option" where
  "loadChannelCacheFromFile s = channelCacheFile s"

text \<open>\<open>now\<close> is \<open>new Date().toISOString()\<close> at the time of the write.\<close>

definition saveChannelCacheToFile :: "string \<Rightarrow> (string \<times> string) list \<Rightarrow> state \<Rightarrow> state" where
  "saveChannelCacheToFile now chans s =
     s\<lparr>channelCacheFile := Some \<lparr>channels_updatedAt = now, channels_map = chans\<rparr>\<rparr>"

definition setChannel :: "string \<Rightarrow> string \<Rightarrow> state \<Rightarrow> state" where
  "setChannel name cid s =
     s\<lparr>channelNameToIdCache := AList.update name cid (channelNameToIdCache s),
       channelIdToNameCache := AList.update cid name (channelIdToNameCache s)\<rparr>"

text \<open>\<open>for (const [name, id] of Object.entries(cachedData.channels))\<close>: fill both maps.\<close>

fun populateChannels :: "(string \<times> string) list \<Rightarrow> state \<Rightarrow> state" where
  "populateChannels [] s = s"
| "populateChannels ((name, cid) # es) s = populateChannels es (setChannel name cid s)"

text \<open>The \<open>for\<close> loop over one page of \<open>resolveChannelId\<close>, and its \<open>do ... while\<close> loop.\<close>

fun resolveChannelId_page ::
  "Channel list \<Rightarrow> (string \<times> string) list \<Rightarrow> state \<Rightarrow> (string \<times> string) list \<times> state" where
  "resolveChannelId_page [] allChannels s = (allChannels, s)"
| "resolveChannelId_page (ch # chs) allChannels s =
     (case truthy (channel_id ch) of
        None \<Rightarrow> resolveChannelId_page chs allChannels s
      | Some cid \<Rightarrow>
          (case truthy (channel_name ch) of
             None \<Rightarrow> resolveChannelId_page chs allChannels s
           | Some name \<Rightarrow>
               resolveChannelId_page chs (AList.update name cid allChannels) (setChannel name cid s)))"

fun resolveChannelId_loop ::
  "Channel pages \<Rightarrow> string option \<Rightarrow> (string \<times> string) list \<Rightarrow> state \<Rightarrow>
   (string \<times> string) list outcome" where
  "resolveChannelId_loop [] cursor allChannels s = Hangs"
| "resolveChannelId_loop (r # rs) cursor allChannels s =
     (let s1 = called (ConversationsList cursor) s in
      case r of
        Rejects err \<Rightarrow> Throws (ClientError err) s1
      | Resolves response \<Rightarrow>
          if \<not> page_ok response then
            Throws (Error (''Failed to list channels: '' @ nullish (page_error response) ''unknown_error'')) s1
          else
            (case resolveChannelId_page (nullish (page_items response) []) allChannels s1 of
               (allChannels1, s2) \<Rightarrow>
                 (let cursor1 = truthy (next_cursor response)
                  in if cursor1 \<noteq> None then resolveChannelId_loop rs cursor1 allChannels1 s2
                     else Returns allChannels1 s2)))"

definition startsWith :: "char \<Rightarrow> string \<Rightarrow> bool" where
  "startsWith c str = (case str of [] \<Rightarrow> False | d # ds \<Rightarrow> d = c)"

text \<open>\<open>channelIdOrName.replace(/^#/, "")\<close>\<close>

definition normalizeName :: "string \<Rightarrow> string" where
  "normalizeName str = (case str of [] \<Rightarrow> [] | d # ds \<Rightarrow> if d = CHR ''#'' then ds else d # ds)"

text \<open>The part of \<open>resolveChannelId\<close> after both caches have missed: the full fetch.\<close>

definition resolveChannelId_fetch :: "Channel pages \<Rightarrow> string \<Rightarrow> string \<Rightarrow> state \<Rightarrow> string outcome" where
  "resolveChannelId_fetch list now channelIdOrName s =
     (case resolveChannelId_loop list None [] s of
        Returns allChannels s1 \<Rightarrow>
          (let s2 = saveChannelCacheToFile now allChannels s1 in
           case truthy (map_of allChannels (normalizeName channelIdOrName)) of
             Some channelId \<Rightarrow> Returns channelId s2
           | None \<Rightarrow> Throws (Error (''Channel not found: '' @ channelIdOrName)) s2)
      | Throws e s1 \<Rightarrow> Throws e s1
      | Hangs \<Rightarrow> Hangs)"

definition resolveChannelId :: "Channel pages \<Rightarrow> string \<Rightarrow> string \<Rightarrow> state \<Rightarrow> string outcome" where
  "resolveChannelId list now channelIdOrName s =
     (if startsWith (CHR ''C'') channelIdOrName \<or> startsWith (CHR ''G'') channelIdOrName then
        Returns channelIdOrName s
      else
        (let normalizedName = normalizeName channelIdOrName in
         case truthy (map_of (channelNameToIdCache s) normalizedName) of
           Some cached \<Rightarrow> Returns cached s
         | None \<Rightarrow>
             (case loadChannelCacheFromFile s of
                None \<Rightarrow> resolveChannelId_fetch list now channelIdOrName s
              | Some cachedData \<Rightarrow>
                  (case truthy (map_of (channels_map cachedData) normalizedName) of
                     Some channelId \<Rightarrow> Returns channelId (populateChannels (channels_map cachedData) s)
                   | None \<Rightarrow> resolveChannelId_fetch list now channelIdOrName s))))"

text \<open>
  \<open>listChannels\<close>. The order that \<open>localeCompare\<close> gives depends on the host's collation:
  \<open>byName\<close> stands for \<open>channels.sort((a, b) => a.name.localeCompare(b.name))\<close>.
\<close>

fun listChannels_page :: "Channel list \<Rightarrow> ChannelInfo list \<Rightarrow> ChannelInfo list" where
  "listChannels_page [] chans = chans"
| "listChannels_page (ch # chs) chans =
     (case truthy (channel_id ch) of
        None \<Rightarrow> listChannels_page chs chans
      | Some cid \<Rightarrow>
          (case truthy (channel_name ch) of
             None \<Rightarrow> listChannels_page chs chans
           | Some name \<Rightarrow> listChannels_page chs (chans @ [\<lparr>info_id = cid, info_name = name\<rparr>])))"

fun listChannels_loop ::
  "Channel pages \<Rightarrow> string option \<Rightarrow> ChannelInfo list \<Rightarrow> state \<Rightarrow> ChannelInfo list outcome" where
  "listChannels_loop [] cursor chans s = Hangs"
| "listChannels_loop (r # rs) cursor chans s =
     (let s1 = called (ConversationsList cursor) s in
      case r of
        Rejects err \<Rightarrow> Throws (ClientError err) s1
      | Resolves response \<Rightarrow>
          if \<not> page_ok response then
            Throws (Error (''Failed to list channels: '' @ nullish (page_error response) ''unknown_error'')) s1
          else
            (let chans1 = listChannels_page (nullish (page_items response) []) chans;
                 cursor1 = truthy (next_cursor response)
             in if cursor1 \<noteq> None then listChannels_loop rs cursor1 chans1 s1
                else Returns chans1 s1))"

definition listChannels_fetch ::
  "(ChannelInfo list \<Rightarrow> ChannelInfo list) \<Rightarrow> Channel pages \<Rightarrow> string \<Rightarrow> state \<Rightarrow> ChannelInfo list outcome" where
  "listChannels_fetch byName list now s =
     (case listChannels_loop list None [] s of
        Returns chans s1 \<Rightarrow>
          (let cacheData = foldl (\<lambda>d ch. AList.update (info_name ch) (info_id ch) d) [] chans
           in Returns (byName chans) (saveChannelCacheToFile now cacheData s1))
      | failed \<Rightarrow> failed)"

definition listChannels ::
  "(ChannelInfo list \<Rightarrow> ChannelInfo list) \<Rightarrow> Channel pages \<Rightarrow> string \<Rightarrow> bool \<Rightarrow> state \<Rightarrow>
   ChannelInfo list outcome" where
  "listChannels byName list now refreshCache s =
     (case (if \<not> refreshCache then loadChannelCacheFromFile s else None) of
        Some cachedData \<Rightarrow>
          Returns (byName (map (\<lambda>(name, cid). \<lparr>info_id = cid, info_name = name\<rparr>) (channels_map cachedData))) s
      | None \<Rightarrow> listChannels_fetch byName list now s)"

section \<open>User index\<close>

definition loadUserCacheFromFile :: "state \<Rightarrow> UserCacheFile option" where
  "loadUserCacheFromFile s = userCacheFile s"

definition saveUserCacheToFile :: "string \<Rightarrow> (string \<times> string) list \<Rightarrow> state \<Rightarrow> state" where
  "saveUserCacheToFile now us s =
     s\<lparr>userCacheFile := Some \<lparr>users_updatedAt = now, users_map = us\<rparr>\<rparr>"

text \<open>\<open>for (const [id, name] of Object.entries(cachedData.users))\<close>\<close>

fun populateUsers :: "(string \<times> string) list \<Rightarrow> state \<Rightarrow> state" where
  "populateUsers [] s = s"
| "populateUsers ((uid, name) # es) s = populateUsers es (setUserCache uid name s)"

fun prefetchUsers_page :: "SlackUser list \<Rightarrow> state \<Rightarrow> state" where
  "prefetchUsers_page [] s = s"
| "prefetchUsers_page (member # members) s =
     (case truthy (user_id member) of
        None \<Rightarrow> prefetchUsers_page members s
      | Some uid \<Rightarrow> prefetchUsers_page members (setUserCache uid (extractDisplayName member) s))"

text \<open>
  The loop of \<open>prefetchUsers\<close>. A page that is not ok makes the function return at once,
  without the write that follows the loop: the loop's value tells whether it ran to its
  end.
\<close>

fun prefetchUsers_loop :: "SlackUser pages \<Rightarrow> string option \<Rightarrow> state \<Rightarrow> bool outcome" where
  "prefetchUsers_loop [] cursor s = Hangs"
| "prefetchUsers_loop (r # rs) cursor s =
     (let s1 = called (UsersList cursor) s in
      case r of
        Rejects err \<Rightarrow> Throws (ClientError err) s1
      | Resolves response \<Rightarrow>
          if \<not> page_ok response then Returns False s1
          else
            (let s2 = prefetchUsers_page (nullish (page_items response) []) s1;
                 cursor1 = truthy (next_cursor response)
             in if cursor1 \<noteq> None then prefetchUsers_loop rs cursor1 s2 else Returns True s2))"

definition prefetchUsers :: "SlackUser pages \<Rightarrow> string \<Rightarrow> bool \<Rightarrow> state \<Rightarrow> unit outcome" where
  "prefetchUsers list now forceRefresh s =
     (case (if \<not> forceRefresh then loadUserCacheFromFile s else None) of
        Some cachedData \<Rightarrow> Returns () (populateUsers (users_map cachedData) s)
      | None \<Rightarrow>
          (case prefetchUsers_loop list None s of
             Returns completed s1 \<Rightarrow>
               if completed then
                 (let usersData = foldl (\<lambda>d (uid, name). AList.update uid name d) [] (userCache s1)
                  in Returns () (saveUserCacheToFile now usersData s1))
               else Returns () s1
           | Throws e s1 \<Rightarrow> Throws e s1
           | Hangs \<Rightarrow> Hangs))"

section \<open>Rendering\<close>

text \<open>
  What the host supplies to the renderers: the clock read by \<open>new Date()\<close> (milliseconds),
  \<open>toISOString\<close> on a valid time value, the local calendar fields of a time value
  (\<open>getFullYear\<close>, \<open>getMonth\<close>, \<open>getDate\<close>, \<open>getHours\<close>, \<open>getMinutes\<close>), \<open>os.EOL\<close>, and
  the remote's single-user lookup.
\<close>

record host =
  clock :: int
  isoString :: "int \<Rightarrow> string"
  localFields :: "int \<Rightarrow> int \<times> int \<times> int \<times> int \<times> int"
  EOL :: string
  users_info :: "string \<Rightarrow> UsersInfoResponse remote"

definition parseTimestamp :: "host \<Rightarrow> string option \<Rightarrow> Date" where
  "parseTimestamp h ts =
     (case truthy ts of
        None \<Rightarrow> TimeValue (clock h)
      | Some t \<Rightarrow> newDate (scale_number 1000 (parseFloat t)))"

text \<open>\<open>toISOString\<close> throws a \<open>RangeError\<close> on an invalid date.\<close>

definition toISOString :: "host \<Rightarrow> Date \<Rightarrow> exn + string" where
  "toISOString h d = (case d of InvalidDate \<Rightarrow> Inl RangeError | TimeValue t \<Rightarrow> Inr (isoString h t))"

text \<open>Decimal rendering of an integer (\<open>String(n)\<close>), and \<open>padStart(2, "0")\<close>.\<close>

fun showNat :: "nat \<Rightarrow> string" where
  "showNat n = (if n < 10 then [char_of (48 + n)] else showNat (n div 10) @ [char_of (48 + n mod 10)])"

definition showInt :: "int \<Rightarrow> string" where
  "showInt i = (if i < 0 then CHR ''-'' # showNat (nat (- i)) else showNat (nat i))"

definition padStart2 :: "string \<Rightarrow> string" where
  "padStart2 str = replicate (2 - length str) (CHR ''0'') @ str"

definition formatDate :: "host \<Rightarrow> Date \<Rightarrow> string" where
  "formatDate h d =
     (case d of
        InvalidDate \<Rightarrow> ''NaN-NaN-NaN''
      | TimeValue t \<Rightarrow>
          (case localFields h t of
             (year, month, day, hours, minutes) \<Rightarrow>
               showInt year @ ''-'' @ padStart2 (showInt (month + 1)) @ ''-'' @ padStart2 (showInt day)))"

definition formatTime :: "host \<Rightarrow> Date \<Rightarrow> string" where
  "formatTime h d =
     (case d of
        InvalidDate \<Rightarrow> ''NaN:NaN''
      | TimeValue t \<Rightarrow>
          (case localFields h t of
             (year, month, day, hours, minutes) \<Rightarrow>
               padStart2 (showInt hours) @ '':'' @ padStart2 (showInt minutes)))"

definition formatMessageText :: "string \<Rightarrow> string" where
  "formatMessageText t = trim t"

text \<open>\<open>Array.prototype.join\<close> and \<open>String.prototype.split("\n")\<close>.\<close>

fun join :: "string \<Rightarrow> string list \<Rightarrow> string" where
  "join sep [] = []"
| "join sep [x] = x"
| "join sep (x # y # ys) = x @ sep @ join sep (y # ys)"

fun splitLines :: "string \<Rightarrow> string list" where
  "splitLines [] = [[]]"
| "splitLines (c # cs) =
     (if c = CHR 0x0A then [] # splitLines cs
      else (case splitLines cs of [] \<Rightarrow> [[c]] | l # ls \<Rightarrow> (c # l) # ls))"

subsection \<open>Delimited\<close>

text \<open>
  The six fields of the row of a root message and of the row of a reply, in the order of
  the header, before they are joined by commas.
\<close>

definition csvMessageFields :: "host \<Rightarrow> string \<Rightarrow> SlackMessage \<Rightarrow> state \<Rightarrow> string list outcome" where
  "csvMessageFields h channelName m s =
     (let timestamp = parseTimestamp h (msg_ts m) in
      case resolveUserName (users_info h) m s of
        Returns userName s1 \<Rightarrow>
          (let text = sanitizeText (nullish (msg_text m) []) in
           case toISOString h timestamp of
             Inl e \<Rightarrow> Throws e s1
           | Inr stamp \<Rightarrow>
               Returns [escapeCsv stamp, escapeCsv channelName, escapeCsv userName, escapeCsv text,
                        escapeCsv (nullish (msg_thread_ts m) []),
                        escapeCsv (showInt (nullish (msg_reply_count m) 0))] s1)
      | Throws e s1 \<Rightarrow> Throws e s1
      | Hangs \<Rightarrow> Hangs)"

definition csvReplyFields :: "host \<Rightarrow> string \<Rightarrow> SlackMessage \<Rightarrow> state \<Rightarrow> string list outcome" where
  "csvReplyFields h channelName reply s =
     (let replyTimestamp = parseTimestamp h (msg_ts reply) in
      case resolveUserName (users_info h) reply s of
        Returns replyUserName s1 \<Rightarrow>
          (let replyText = sanitizeText (nullish (msg_text reply) []) in
           case toISOString h replyTimestamp of
             Inl e \<Rightarrow> Throws e s1
           | Inr stamp \<Rightarrow>
               Returns [escapeCsv stamp, escapeCsv channelName, escapeCsv replyUserName, escapeCsv replyText,
                        escapeCsv (nullish (msg_thread_ts reply) []),
                        escapeCsv ''0''] s1)
      | Throws e s1 \<Rightarrow> Throws e s1
      | Hangs \<Rightarrow> Hangs)"

text \<open>The inner loop over the replies and the outer loop over the messages; \<open>rows\<close> grows.\<close>

fun csvReplies_loop ::
  "host \<Rightarrow> string \<Rightarrow> SlackMessage list \<Rightarrow> string list list \<Rightarrow> state \<Rightarrow> string list list outcome" where
  "csvReplies_loop h channelName [] rows s = Returns rows s"
| "csvReplies_loop h channelName (reply # rest) rows s =
     (case csvReplyFields h channelName reply s of
        Returns row s1 \<Rightarrow> csvReplies_loop h channelName rest (rows @ [row]) s1
      | Throws e s1 \<Rightarrow> Throws e s1
      | Hangs \<Rightarrow> Hangs)"

fun csvMessages_loop ::
  "host \<Rightarrow> string \<Rightarrow> MessageWithReplies list \<Rightarrow> string list list \<Rightarrow> state \<Rightarrow> string list list outcome" where
  "csvMessages_loop h channelName [] rows s = Returns rows s"
| "csvMessages_loop h channelName (a # rest) rows s =
     (case csvMessageFields h channelName (message a) s of
        Returns row s1 \<Rightarrow>
          (case csvReplies_loop h channelName (replies a) (rows @ [row]) s1 of
             Returns rows1 s2 \<Rightarrow> csvMessages_loop h channelName rest rows1 s2
           | Throws e s2 \<Rightarrow> Throws e s2
           | Hangs \<Rightarrow> Hangs)
      | Throws e s1 \<Rightarrow> Throws e s1
      | Hangs \<Rightarrow> Hangs)"

text \<open>The data rows of the file as lists of fields, and the file.\<close>

definition csvRows :: "host \<Rightarrow> string \<Rightarrow> MessageWithReplies list \<Rightarrow> state \<Rightarrow> string list list outcome" where
  "csvRows h channelName messages s = csvMessages_loop h channelName messages [] s"

definition formatAsCsv :: "host \<Rightarrow> string \<Rightarrow> MessageWithReplies list \<Rightarrow> state \<Rightarrow> string outcome" where
  "formatAsCsv h channelName messages s =
     (let header = ''timestamp,channel,user,text,thread_ts,reply_count'' in
      case csvRows h channelName messages s of
        Returns rows s1 \<Rightarrow> Returns (join (EOL h) (header # map (join '','') rows)) s1
      | Throws e s1 \<Rightarrow> Throws e s1
      | Hangs \<Rightarrow> Hangs)"

subsection \<open>Hierarchical\<close>

text \<open>The lines pushed for a root message (up to its text) and for one reply.\<close>

definition yamlMessageLines :: "host \<Rightarrow> SlackMessage \<Rightarrow> state \<Rightarrow> string list outcome" where
  \<open>yamlMessageLines h m s =
     (let timestamp = parseTimestamp h (msg_ts m);
          dateStr = formatDate h timestamp;
          timeStr = formatTime h timestamp
      in case resolveUserName (users_info h) m s of
           Returns userName s1 \<Rightarrow>
             (let text = nullish (msg_text m) [] in
              Returns ([''  - ts: "'' @ nullish (msg_ts m) [] @ ''"'',
                        ''    date: "'' @ dateStr @ ''"'',
                        ''    time: "'' @ timeStr @ ''"'',
                        ''    user: '' @ userName,
                        ''    text: |'']
                       @ map (\<lambda>textLine. ''      '' @ textLine) (splitLines text)) s1)
         | Throws e s1 \<Rightarrow> Throws e s1
         | Hangs \<Rightarrow> Hangs)\<close>

definition yamlReplyLines :: "host \<Rightarrow> SlackMessage \<Rightarrow> state \<Rightarrow> string list outcome" where
  \<open>yamlReplyLines h reply s =
     (let replyTimestamp = parseTimestamp h (msg_ts reply);
          replyTimeStr = formatTime h replyTimestamp
      in case resolveUserName (users_info h) reply s of
           Returns replyUserName s1 \<Rightarrow>
             (let replyText = nullish (msg_text reply) [] in
              Returns ([''      - ts: "'' @ nullish (msg_ts reply) [] @ ''"'',
                        ''        time: "'' @ replyTimeStr @ ''"'',
                        ''        user: '' @ replyUserName,
                        ''        text: |'']
                       @ map (\<lambda>replyTextLine. ''          '' @ replyTextLine) (splitLines replyText)) s1)
         | Throws e s1 \<Rightarrow> Throws e s1
         | Hangs \<Rightarrow> Hangs)\<close>

fun yamlReplies_loop :: "host \<Rightarrow> SlackMessage list \<Rightarrow> string list \<Rightarrow> state \<Rightarrow> string list outcome" where
  "yamlReplies_loop h [] lines s = Returns lines s"
| "yamlReplies_loop h (reply # rest) lines s =
     (case yamlReplyLines h reply s of
        Returns pushed s1 \<Rightarrow> yamlReplies_loop h rest (lines @ pushed) s1
      | Throws e s1 \<Rightarrow> Throws e s1
      | Hangs \<Rightarrow> Hangs)"

fun yamlMessages_loop :: "host \<Rightarrow> MessageWithReplies list \<Rightarrow> string list \<Rightarrow> state \<Rightarrow> string list outcome" where
  "yamlMessages_loop h [] lines s = Returns lines s"
| "yamlMessages_loop h (a # rest) lines s =
     (case yamlMessageLines h (message a) s of
        Returns pushed s1 \<Rightarrow>
          (if length (replies a) > 0 then
             (case yamlReplies_loop h (replies a) (lines @ pushed @ [''    replies:'']) s1 of
                Returns lines1 s2 \<Rightarrow> yamlMessages_loop h rest lines1 s2
              | Throws e s2 \<Rightarrow> Throws e s2
              | Hangs \<Rightarrow> Hangs)
           else yamlMessages_loop h rest (lines @ pushed @ [''    replies: []'']) s1)
      | Throws e s1 \<Rightarrow> Throws e s1
      | Hangs \<Rightarrow> Hangs)"

definition formatAsYaml :: "host \<Rightarrow> string \<Rightarrow> MessageWithReplies list \<Rightarrow> state \<Rightarrow> string outcome" where
  "formatAsYaml h channelName messages s =
     (let exportedAt = isoString h (clock h) in
      case yamlMessages_loop h messages
             [''channel: '' @ channelName, ''exported_at: '' @ exportedAt, ''messages:''] s of
        Returns lines s1 \<Rightarrow> Returns (join [CHR 0x0A] lines) s1
      | Throws e s1 \<Rightarrow> Throws e s1
      | Hangs \<Rightarrow> Hangs)"

subsection \<open>Sectioned\<close>

text \<open>
  The lines pushed for a root message, given the date of the heading in force, with the
  date in force afterwards; and the lines pushed for one reply.
\<close>

definition markdownMessageLines ::
  "host \<Rightarrow> string \<Rightarrow> SlackMessage \<Rightarrow> state \<Rightarrow> (string list \<times> string) outcome" where
  "markdownMessageLines h currentDate m s =
     (let timestamp = parseTimestamp h (msg_ts m);
          dateStr = formatDate h timestamp;
          timeStr = formatTime h timestamp;
          heading = (if dateStr \<noteq> currentDate then [''## '' @ dateStr, []] else [])
      in case resolveUserName (users_info h) m s of
           Returns userName s1 \<Rightarrow>
             (let text = formatMessageText (nullish (msg_text m) []) in
              Returns (heading @ [''### '' @ timeStr @ '' @'' @ userName, text, []], dateStr) s1)
         | Throws e s1 \<Rightarrow> Throws e s1
         | Hangs \<Rightarrow> Hangs)"

definition markdownReplyLines :: "host \<Rightarrow> SlackMessage \<Rightarrow> state \<Rightarrow> string list outcome" where
  "markdownReplyLines h reply s =
     (let replyTimestamp = parseTimestamp h (msg_ts reply);
          replyTimeStr = formatTime h replyTimestamp
      in case resolveUserName (users_info h) reply s of
           Returns replyUserName s1 \<Rightarrow>
             (let replyText = formatMessageText (nullish (msg_text reply) []) in
              Returns ([''> **'' @ replyTimeStr @ '' @'' @ replyUserName @ ''**'']
                       @ map (\<lambda>line. ''> '' @ line) (splitLines replyText) @ [[]]) s1)
         | Throws e s1 \<Rightarrow> Throws e s1
         | Hangs \<Rightarrow> Hangs)"

fun markdownReplies_loop :: "host \<Rightarrow> SlackMessage list \<Rightarrow> string list \<Rightarrow> state \<Rightarrow> string list outcome" where
  "markdownReplies_loop h [] lines s = Returns lines s"
| "markdownReplies_loop h (reply # rest) lines s =
     (case markdownReplyLines h reply s of
        Returns pushed s1 \<Rightarrow> markdownReplies_loop h rest (lines @ pushed) s1
      | Throws e s1 \<Rightarrow> Throws e s1
      | Hangs \<Rightarrow> Hangs)"

fun markdownMessages_loop ::
  "host \<Rightarrow> MessageWithReplies list \<Rightarrow> string \<Rightarrow> string list \<Rightarrow> state \<Rightarrow> string list outcome" where
  "markdownMessages_loop h [] currentDate lines s = Returns lines s"
| "markdownMessages_loop h (a # rest) currentDate lines s =
     (case markdownMessageLines h currentDate (message a) s of
        Returns (pushed, currentDate1) s1 \<Rightarrow>
          (case markdownReplies_loop h (replies a) (lines @ pushed) s1 of
             Returns lines1 s2 \<Rightarrow> markdownMessages_loop h rest currentDate1 lines1 s2
           | Throws e s2 \<Rightarrow> Throws e s2
           | Hangs \<Rightarrow> Hangs)
      | Throws e s1 \<Rightarrow> Throws e s1
      | Hangs \<Rightarrow> Hangs)"

definition formatAsMarkdown :: "host \<Rightarrow> string \<Rightarrow> MessageWithReplies list \<Rightarrow> state \<Rightarrow> string outcome" where
  "formatAsMarkdown h channelName messages s =
     (case markdownMessages_loop h messages [] [''# #'' @ channelName, []] s of
        Returns lines s1 \<Rightarrow> Returns (join [CHR 0x0A] lines) s1
      | Throws e s1 \<Rightarrow> Throws e s1
      | Hangs \<Rightarrow> Hangs)"

section \<open>The claims in the words of the specification, and sample values\<close>

text \<open>
  The rendering of a field as the specification words it: newlines collapsed to spaces,
  then quotes doubled, the whole wrapped in quotes when it holds a comma, a quote or a
  newline.
\<close>

definition spec_csvField :: "string \<Rightarrow> string" where
  "spec_csvField v =
     (let c = collapseNewlines v
      in if needsQuotes c then [CHR 0x22] @ doubleQuotes c @ [CHR 0x22] else doubleQuotes c)"

text \<open>The state of a process that has just started, with no snapshot on disk.\<close>

definition initialState :: state where
  "initialState = \<lparr>userCache = [], channelNameToIdCache = [], channelIdToNameCache = [],
     channelCacheFile = None, userCacheFile = None, requests = []\<rparr>"

text \<open>
  A host for the examples: the clock at the epoch, a stand-in for \<open>toISOString\<close> that
  prints the time value, the local calendar stuck at 1970-01-01 00:00, LF line ends.
\<close>

definition sampleHost :: "(string \<Rightarrow> UsersInfoResponse remote) \<Rightarrow> host" where
  "sampleHost ui = \<lparr>clock = 0, isoString = (\<lambda>t. ''T'' @ showInt t),
     localFields = (\<lambda>t. (1970, 0, 1, 0, 0)), EOL = [CHR 0x0A], users_info = ui\<rparr>"

text \<open>
  Name resolution as the specification words it, in three tiers: the trimmed display
  name, else the trimmed real name of the profile, else the raw identifier.
\<close>

definition spec_resolveName :: "Profile option \<Rightarrow> string \<Rightarrow> string" where
  "spec_resolveName profile userId =
     (case truthy (map_option trim (Option.bind profile display_name)) of
        Some d \<Rightarrow> d
      | None \<Rightarrow>
          (case truthy (map_option trim (Option.bind profile profile_real_name)) of
             Some r \<Rightarrow> r
           | None \<Rightarrow> userId))"



definition sampleMessage :: "string \<Rightarrow> SlackMessage" where
  "sampleMessage ts = \<lparr>msg_ts = Some ts, msg_user = Some ''U1'', msg_bot_id = None, msg_username = None,
     msg_text = Some ''hello'', msg_thread_ts = None, msg_reply_count = None\<rparr>"

definition samplePage :: "'a list \<Rightarrow> string option \<Rightarrow> 'a page" where
  "samplePage xs c = \<lparr>page_ok = True, page_error = None, page_items = Some xs, next_cursor = c\<rparr>"

text \<open>
  The order that the sort of \<open>fetchHistory\<close> establishes, on messages whose \<open>ts\<close> reads as
  a finite number.
\<close>

definition tsNumber :: "SlackMessage \<Rightarrow> number" where
  "tsNumber m = parseFloat (nullish (msg_ts m) ''0'')"

definition tsLeq :: "SlackMessage \<Rightarrow> SlackMessage \<Rightarrow> bool" where
  "tsLeq a b = (case (tsNumber a, tsNumber b) of (Num x, Num y) \<Rightarrow> x \<le> y | _ \<Rightarrow> False)"

text \<open>
  The answers of the remote let a pagination loop end normally: every page up to the
  first one without a cursor is delivered and ok.
\<close>

fun endsNormally :: "'a pages \<Rightarrow> bool" where
  "endsNormally [] = False"
| "endsNormally (Rejects e # rs) = False"
| "endsNormally (Resolves p # rs) = (page_ok p \<and> (truthy (next_cursor p) = None \<or> endsNormally rs))"

text \<open>A remote for the examples: one thread, whose first delivered message is its anchor.\<close>

definition sampleThread :: "string \<Rightarrow> string \<Rightarrow> SlackMessage pages" where
  "sampleThread channelId threadTs =
     [Resolves (samplePage [sampleMessage threadTs, sampleMessage ''11.0''] (Some ''next'')),
      Resolves (samplePage [sampleMessage ''12.0''] None)]"

text \<open>The thread-anchor and reply-count columns of a row, and those of the rows of one aggregate.\<close>

definition anchorAndCount :: "string list \<Rightarrow> string \<times> string" where
  "anchorAndCount row = (row ! 4, row ! 5)"

definition groupColumns :: "MessageWithReplies \<Rightarrow> (string \<times> string) list" where
  "groupColumns a =
     (escapeCsv (nullish (msg_thread_ts (message a)) []),
      escapeCsv (showInt (nullish (msg_reply_count (message a)) 0)))
     # map (\<lambda>r. (escapeCsv (nullish (msg_thread_ts r) []), ''0'')) (replies a)"


section \<open>Properties\<close>

subsection \<open>Escaping of delimited fields\<close>

lemma doubleQuotes_id: "CHR 0x22 \<notin> set v \<Longrightarrow> doubleQuotes v = v"
  by (induction v) (auto simp: doubleQuotes_def)

lemma set_doubleQuotes: "set (doubleQuotes v) = set v"
  by (induction v) (auto simp: doubleQuotes_def)

lemma collapse_no_newline:
  "CHR 0x0A \<notin> set (collapseNewlines t) \<and> CHR 0x0D \<notin> set (collapseNewlines t)"
  by (induction t rule: collapseNewlines.induct) (auto split: list.splits)

lemma set_trim: "set (trim t) \<subseteq> set t"
  unfolding trim_def
  by (metis set_dropWhileD set_rev subsetI)

lemma sanitize_single_line:
  "CHR 0x0A \<notin> set (sanitizeText t) \<and> CHR 0x0D \<notin> set (sanitizeText t)"
  using collapse_no_newline[of t] set_trim[of "collapseNewlines t"]
  unfolding sanitizeText_def by blast

lemma set_escapeCsv: "set (escapeCsv v) \<subseteq> insert (CHR 0x22) (set v)"
  by (auto simp: escapeCsv_def set_doubleQuotes)

lemma escapeCsv_single_line:
  "CHR 0x0A \<notin> set (escapeCsv (sanitizeText t)) \<and> CHR 0x0D \<notin> set (escapeCsv (sanitizeText t))"
  using sanitize_single_line[of t] set_escapeCsv[of "sanitizeText t"] by auto

lemma escapeCsv_cases:
  "escapeCsv v =
     (if CHR 0x22 \<in> set v \<or> CHR '','' \<in> set v \<or> CHR 0x0A \<in> set v
      then [CHR 0x22] @ concat (map (\<lambda>c. if c = CHR 0x22 then [CHR 0x22, CHR 0x22] else [c]) v) @ [CHR 0x22]
      else v)"
  by (auto simp: escapeCsv_def needsQuotes_def doubleQuotes_id) (auto simp: doubleQuotes_def)

lemma csvMessageFields_row:
  assumes "csvMessageFields h cn m s = Returns row s'"
  shows "\<exists>stamp userName. row = [escapeCsv stamp, escapeCsv cn, escapeCsv userName,
            escapeCsv (sanitizeText (nullish (msg_text m) [])),
            escapeCsv (nullish (msg_thread_ts m) []),
            escapeCsv (showInt (nullish (msg_reply_count m) 0))]"
  using assms unfolding csvMessageFields_def Let_def
  by (auto split: outcome.splits sum.splits)

lemma csvReplyFields_row:
  assumes "csvReplyFields h cn m s = Returns row s'"
  shows "\<exists>stamp userName. row = [escapeCsv stamp, escapeCsv cn, escapeCsv userName,
            escapeCsv (sanitizeText (nullish (msg_text m) [])),
            escapeCsv (nullish (msg_thread_ts m) []),
            escapeCsv ''0'']"
  using assms unfolding csvReplyFields_def Let_def
  by (auto split: outcome.splits sum.splits)

lemma csvMessageFields_fields:
  assumes "csvMessageFields h cn m s = Returns row s'"
  shows "\<exists>stamp userName.
           toISOString h (parseTimestamp h (msg_ts m)) = Inr stamp
         \<and> resolveUserName (users_info h) m s = Returns userName s'
         \<and> row = [escapeCsv stamp, escapeCsv cn, escapeCsv userName,
                   escapeCsv (sanitizeText (nullish (msg_text m) [])),
                   escapeCsv (nullish (msg_thread_ts m) []),
                   escapeCsv (showInt (nullish (msg_reply_count m) 0))]"
  using assms unfolding csvMessageFields_def Let_def
  by (auto split: outcome.splits sum.splits)

lemma csvReplyFields_fields:
  assumes "csvReplyFields h cn m s = Returns row s'"
  shows "\<exists>stamp userName.
           toISOString h (parseTimestamp h (msg_ts m)) = Inr stamp
         \<and> resolveUserName (users_info h) m s = Returns userName s'
         \<and> row = [escapeCsv stamp, escapeCsv cn, escapeCsv userName,
                   escapeCsv (sanitizeText (nullish (msg_text m) [])),
                   escapeCsv (nullish (msg_thread_ts m) []),
                   escapeCsv ''0'']"
  using assms unfolding csvReplyFields_def Let_def
  by (auto split: outcome.splits sum.splits)

text \<open>
  C7, as amended. In a row of the delimited output, of a root message or of a reply, the
  text field is the message text with every newline sequence (CR LF, CR, LF) collapsed to
  one space and the white space at both ends trimmed, then escaped; it holds no line
  break. The other fields are escaped as they are, without any collapsing: the timestamp
  is the escaped ISO string of the message's date, the channel field the escaped channel
  name, the user field the escaped name that \<open>resolveUserName\<close> returns, the thread-anchor
  field the escaped \<open>thread_ts\<close> (empty when absent), the reply-count field the escaped
  count of a root and the escaped \<open>0\<close> of a reply; a row has these six fields. Escaping
  doubles the quote characters and wraps the field in quotes exactly when it holds a
  quote, a comma or a line feed, and leaves any other field unchanged. The text
  \<open>a,"b"\<close> LF \<open>c\<close> renders as \<open>"a,""b"" c"\<close>.
\<close>

theorem csv_field_rendering:
  assumes "csvMessageFields h cn m s = Returns row s' \<or> csvReplyFields h cn m s = Returns row s'"
  shows \<open>row ! 3 = escapeCsv (trim (collapseNewlines (nullish (msg_text m) [])))
     \<and> CHR 0x0A \<notin> set (row ! 3) \<and> CHR 0x0D \<notin> set (row ! 3)
     \<and> row ! 1 = escapeCsv cn
     \<and> row ! 4 = escapeCsv (nullish (msg_thread_ts m) [])
     \<and> (\<forall>v. escapeCsv v =
           (if CHR 0x22 \<in> set v \<or> CHR '','' \<in> set v \<or> CHR 0x0A \<in> set v
            then [CHR 0x22] @ concat (map (\<lambda>c. if c = CHR 0x22 then [CHR 0x22, CHR 0x22] else [c]) v) @ [CHR 0x22]
            else v))
     \<and> escapeCsv (sanitizeText (''a,"b"'' @ [CHR 0x0A] @ ''c'')) = ''"a,""b"" c"''
     \<and> length row = 6
     \<and> (\<exists>stamp. toISOString h (parseTimestamp h (msg_ts m)) = Inr stamp \<and> row ! 0 = escapeCsv stamp)
     \<and> (\<exists>userName. resolveUserName (users_info h) m s = Returns userName s' \<and> row ! 2 = escapeCsv userName)
     \<and> (csvMessageFields h cn m s = Returns row s' \<longrightarrow>
           row ! 5 = escapeCsv (showInt (nullish (msg_reply_count m) 0)))
     \<and> (csvReplyFields h cn m s = Returns row s' \<longrightarrow> row ! 5 = escapeCsv ''0'')\<close>
proof -
  from assms obtain stamp userName cnt where
    stamp: "toISOString h (parseTimestamp h (msg_ts m)) = Inr stamp"
    and user: "resolveUserName (users_info h) m s = Returns userName s'"
    and row: "row = [escapeCsv stamp, escapeCsv cn, escapeCsv userName,
            escapeCsv (sanitizeText (nullish (msg_text m) [])),
            escapeCsv (nullish (msg_thread_ts m) []), cnt]"
    using csvMessageFields_fields csvReplyFields_fields by blast
  have ex: \<open>escapeCsv (sanitizeText (''a,"b"'' @ [CHR 0x0A] @ ''c'')) = ''"a,""b"" c"''\<close>
    by code_simp
  have old: \<open>row ! 3 = escapeCsv (trim (collapseNewlines (nullish (msg_text m) [])))
     \<and> CHR 0x0A \<notin> set (row ! 3) \<and> CHR 0x0D \<notin> set (row ! 3)
     \<and> row ! 1 = escapeCsv cn
     \<and> row ! 4 = escapeCsv (nullish (msg_thread_ts m) [])\<close>
    using escapeCsv_single_line[of "nullish (msg_text m) []"]
    by (simp add: row sanitizeText_def)
  have len: "length row = 6" by (simp add: row)
  have c0: "\<exists>stamp. toISOString h (parseTimestamp h (msg_ts m)) = Inr stamp \<and> row ! 0 = escapeCsv stamp"
    using stamp by (simp add: row)
  have c2: "\<exists>userName. resolveUserName (users_info h) m s = Returns userName s' \<and> row ! 2 = escapeCsv userName"
    using user by (simp add: row)
  have c5: "csvMessageFields h cn m s = Returns row s' \<longrightarrow>
           row ! 5 = escapeCsv (showInt (nullish (msg_reply_count m) 0))"
    using csvMessageFields_fields[of h cn m s row s'] by auto
  have c5': "csvReplyFields h cn m s = Returns row s' \<longrightarrow> row ! 5 = escapeCsv ''0''"
    using csvReplyFields_fields[of h cn m s row s'] by auto
  show ?thesis
    using old escapeCsv_cases ex len c0 c2 c5 c5' by blast
qed

theorem csv_field_rendering_witness:
  \<open>csvMessageFields ((sampleHost (\<lambda>_. Rejects OtherError))\<lparr>isoString := (\<lambda>t. ''T,'' @ showInt t)\<rparr>) ''general''
      \<lparr>msg_ts = Some ''1.5'', msg_user = Some ''U1'', msg_bot_id = None, msg_username = None,
       msg_text = Some (''a,"b"'' @ [CHR 0x0A] @ ''c''), msg_thread_ts = Some ''1.5'', msg_reply_count = Some 2\<rparr>
      (initialState\<lparr>userCache := [(''U1'', ''Lee'' @ [CHR 0x0A] @ ''Ann'')]\<rparr>)
    = Returns [''"T,1500"'', ''general'', [CHR 0x22] @ ''Lee'' @ [CHR 0x0A] @ ''Ann'' @ [CHR 0x22],
               ''"a,""b"" c"'', ''1.5'', ''2'']
        (initialState\<lparr>userCache := [(''U1'', ''Lee'' @ [CHR 0x0A] @ ''Ann'')]\<rparr>)
   \<and> [''"T,1500"'', ''general'', [CHR 0x22] @ ''Lee'' @ [CHR 0x0A] @ ''Ann'' @ [CHR 0x22],
               ''"a,""b"" c"'', ''1.5'', ''2''] ! 3
       = escapeCsv (trim (collapseNewlines (''a,"b"'' @ [CHR 0x0A] @ ''c'')))
   \<and> [''"T,1500"'', ''general'', [CHR 0x22] @ ''Lee'' @ [CHR 0x0A] @ ''Ann'' @ [CHR 0x22],
               ''"a,""b"" c"'', ''1.5'', ''2''] ! 2
       = escapeCsv (''Lee'' @ [CHR 0x0A] @ ''Ann'')
   \<and> [''"T,1500"'', ''general'', [CHR 0x22] @ ''Lee'' @ [CHR 0x0A] @ ''Ann'' @ [CHR 0x22],
               ''"a,""b"" c"'', ''1.5'', ''2''] ! 0
       = escapeCsv ''T,1500''\<close>
proof -
  have run: \<open>csvMessageFields ((sampleHost (\<lambda>_. Rejects OtherError))\<lparr>isoString := (\<lambda>t. ''T,'' @ showInt t)\<rparr>) ''general''
      \<lparr>msg_ts = Some ''1.5'', msg_user = Some ''U1'', msg_bot_id = None, msg_username = None,
       msg_text = Some (''a,"b"'' @ [CHR 0x0A] @ ''c''), msg_thread_ts = Some ''1.5'', msg_reply_count = Some 2\<rparr>
      (initialState\<lparr>userCache := [(''U1'', ''Lee'' @ [CHR 0x0A] @ ''Ann'')]\<rparr>)
    = Returns [''"T,1500"'', ''general'', [CHR 0x22] @ ''Lee'' @ [CHR 0x0A] @ ''Ann'' @ [CHR 0x22],
               ''"a,""b"" c"'', ''1.5'', ''2'']
        (initialState\<lparr>userCache := [(''U1'', ''Lee'' @ [CHR 0x0A] @ ''Ann'')]\<rparr>)\<close>
    by code_simp
  have e: \<open>escapeCsv (''Lee'' @ [CHR 0x0A] @ ''Ann'') = [CHR 0x22] @ ''Lee'' @ [CHR 0x0A] @ ''Ann'' @ [CHR 0x22]\<close>
    \<open>escapeCsv ''T,1500'' = ''"T,1500"''\<close>
    by code_simp+
  from csv_field_rendering[OF disjI1, OF run] run e show ?thesis by simp
qed

text \<open>
  C7 as it is worded fails twice on one row: the user field keeps the line feed of a
  display name, where the wording collapses it, and the text field loses its leading
  space, where the wording keeps it.
\<close>

theorem csv_field_rendering_counterexample:
  \<open>csvMessageFields
      (sampleHost (\<lambda>_. Rejects OtherError)) ''general''
      \<lparr>msg_ts = Some ''1.5'', msg_user = Some ''U1'', msg_bot_id = None, msg_username = None,
       msg_text = Some '' x'', msg_thread_ts = None, msg_reply_count = None\<rparr>
      (initialState\<lparr>userCache := [(''U1'', ''a'' @ [CHR 0x0A] @ ''b'')]\<rparr>)
    = Returns [''T1500'', ''general'', [CHR 0x22] @ ''a'' @ [CHR 0x0A] @ ''b'' @ [CHR 0x22], ''x'', [], ''0'']
        (initialState\<lparr>userCache := [(''U1'', ''a'' @ [CHR 0x0A] @ ''b'')]\<rparr>)
   \<and> [CHR 0x22] @ ''a'' @ [CHR 0x0A] @ ''b'' @ [CHR 0x22] \<noteq> spec_csvField (''a'' @ [CHR 0x0A] @ ''b'')
   \<and> ''x'' \<noteq> spec_csvField '' x''\<close>
  by code_simp

subsection \<open>Truthiness\<close>

lemma orElse_truthy: "orElse a b = (case truthy a of Some x \<Rightarrow> x | None \<Rightarrow> b)"
  by (cases "(a, b)" rule: orElse.cases) auto

lemma truthy_Some_iff: "truthy a = Some x \<longleftrightarrow> a = Some x \<and> x \<noteq> []"
  by (cases a rule: truthy.cases) auto

subsection \<open>Authors without a user id\<close>

lemma resolveUserName_no_user:
  assumes "truthy (msg_user m) = None"
  shows "resolveUserName ui m s =
           Returns (case truthy (msg_bot_id m) of
                      Some b \<Rightarrow> (case truthy (msg_username m) of Some u \<Rightarrow> u | None \<Rightarrow> ''bot:'' @ b)
                    | None \<Rightarrow> ''unknown'') s"
  using assms by (simp add: resolveUserName_def orElse_truthy split: option.splits)

lemma escapeCsv_unknown: "escapeCsv ''unknown'' = ''unknown''"
  by code_simp

text \<open>
  C10. A message with no user id (absent or empty) gets its author without any call to
  the remote: the state, with its trace of requests, is returned as it was, whatever the
  remote would answer. With a bot id the author is the username when there is one, else
  \<open>bot:\<close> followed by the bot id; with neither id it is \<open>unknown\<close>, and that is what the
  rows and lines of the three renderers show, for a root message and for a reply.
\<close>

theorem author_without_user_id:
  assumes "truthy (msg_user m) = None"
  shows "resolveUserName ui m s =
           Returns (case truthy (msg_bot_id m) of
                      Some b \<Rightarrow> (case truthy (msg_username m) of Some u \<Rightarrow> u | None \<Rightarrow> ''bot:'' @ b)
                    | None \<Rightarrow> ''unknown'') s
     \<and> (truthy (msg_bot_id m) = None \<longrightarrow>
          (\<forall>row s'. csvMessageFields h cn m s = Returns row s' \<longrightarrow> row ! 2 = ''unknown'' \<and> s' = s)
        \<and> (\<forall>row s'. csvReplyFields h cn m s = Returns row s' \<longrightarrow> row ! 2 = ''unknown'' \<and> s' = s)
        \<and> (\<exists>ls. yamlMessageLines h m s = Returns ls s \<and> ls ! 3 = ''    user: unknown'')
        \<and> (\<exists>ls. yamlReplyLines h m s = Returns ls s \<and> ls ! 2 = ''        user: unknown'')
        \<and> (\<exists>ls d. markdownMessageLines h cur m s = Returns (ls, d) s
              \<and> ''### '' @ formatTime h (parseTimestamp h (msg_ts m)) @ '' @unknown'' \<in> set ls)
        \<and> (\<exists>ls. markdownReplyLines h m s = Returns ls s
              \<and> ls ! 0 = ''> **'' @ formatTime h (parseTimestamp h (msg_ts m)) @ '' @unknown**''))"
proof -
  note r = resolveUserName_no_user[OF assms]
  have csv1: "\<forall>row s'. csvMessageFields h cn m s = Returns row s' \<longrightarrow> row ! 2 = ''unknown'' \<and> s' = s"
    if "truthy (msg_bot_id m) = None"
    using that by (auto simp: csvMessageFields_def r escapeCsv_unknown split: sum.splits)
  have csv2: "\<forall>row s'. csvReplyFields h cn m s = Returns row s' \<longrightarrow> row ! 2 = ''unknown'' \<and> s' = s"
    if "truthy (msg_bot_id m) = None"
    using that by (auto simp: csvReplyFields_def r escapeCsv_unknown split: sum.splits)
  have y1: "\<exists>ls. yamlMessageLines h m s = Returns ls s \<and> ls ! 3 = ''    user: unknown''"
    if "truthy (msg_bot_id m) = None"
    using that by (simp add: yamlMessageLines_def r Let_def)
  have y2: "\<exists>ls. yamlReplyLines h m s = Returns ls s \<and> ls ! 2 = ''        user: unknown''"
    if "truthy (msg_bot_id m) = None"
    using that by (simp add: yamlReplyLines_def r Let_def)
  have m1: "\<exists>ls d. markdownMessageLines h cur m s = Returns (ls, d) s
              \<and> ''### '' @ formatTime h (parseTimestamp h (msg_ts m)) @ '' @unknown'' \<in> set ls"
    if "truthy (msg_bot_id m) = None"
    using that by (simp add: markdownMessageLines_def r Let_def)
  have m2: "\<exists>ls. markdownReplyLines h m s = Returns ls s
              \<and> ls ! 0 = ''> **'' @ formatTime h (parseTimestamp h (msg_ts m)) @ '' @unknown**''"
    if "truthy (msg_bot_id m) = None"
    using that by (simp add: markdownReplyLines_def r Let_def)
  show ?thesis using r csv1 csv2 y1 y2 m1 m2 by blast
qed

theorem author_without_user_id_witness:
  "truthy (msg_user \<lparr>msg_ts = Some ''1.5'', msg_user = None, msg_bot_id = Some ''B7'', msg_username = None,
       msg_text = None, msg_thread_ts = None, msg_reply_count = None\<rparr>) = None
   \<and> resolveUserName (\<lambda>_. Rejects OtherError)
       \<lparr>msg_ts = Some ''1.5'', msg_user = None, msg_bot_id = Some ''B7'', msg_username = None,
        msg_text = None, msg_thread_ts = None, msg_reply_count = None\<rparr> initialState
     = Returns ''bot:B7'' initialState
   \<and> truthy (msg_bot_id \<lparr>msg_ts = Some ''1.5'', msg_user = None, msg_bot_id = None, msg_username = Some ''x'',
       msg_text = None, msg_thread_ts = None, msg_reply_count = None\<rparr>) = None
   \<and> resolveUserName (\<lambda>_. Rejects OtherError)
       \<lparr>msg_ts = Some ''1.5'', msg_user = None, msg_bot_id = None, msg_username = Some ''x'',
        msg_text = None, msg_thread_ts = None, msg_reply_count = None\<rparr> initialState
     = Returns ''unknown'' initialState"
  using author_without_user_id[of "\<lparr>msg_ts = Some ''1.5'', msg_user = None, msg_bot_id = Some ''B7'', msg_username = None,
       msg_text = None, msg_thread_ts = None, msg_reply_count = None\<rparr>" "\<lambda>_. Rejects OtherError" initialState]
    author_without_user_id[of "\<lparr>msg_ts = Some ''1.5'', msg_user = None, msg_bot_id = None, msg_username = Some ''x'',
       msg_text = None, msg_thread_ts = None, msg_reply_count = None\<rparr>" "\<lambda>_. Rejects OtherError" initialState]
  by simp

subsection \<open>Name selection\<close>

lemma getUserName_try_ok:
  assumes "ui userId = Resolves r" "info_ok r" "info_user r = Some u"
  shows "getUserName_try ui userId s =
           Returns (orElse (map_option trim (Option.bind (user_profile u) display_name))
                     (orElse (map_option trim (Option.bind (user_profile u) profile_real_name))
                       (orElse (user_real_name u) userId)))
             (setUserCache userId
                (orElse (map_option trim (Option.bind (user_profile u) display_name))
                     (orElse (map_option trim (Option.bind (user_profile u) profile_real_name))
                       (orElse (user_real_name u) userId)))
                (called (UsersInfo userId) s))"
  using assms by (simp add: getUserName_try_def Let_def)

text \<open>
  C3, as amended. When the cache misses and the lookup answers ok with a user, the name
  returned and cached is the first non-empty one of four: the trimmed display name of the
  profile, the trimmed real name of the profile, the real name of the user record itself
  (not trimmed), the raw identifier. Where the user record has no real name of its own
  this is the three-tier chain of the specification. \<open>extractDisplayName\<close>, used by the
  bulk prefetch, follows the same four tiers and ends with the id of the record, then
  \<open>unknown\<close>.
\<close>

theorem user_name_fallback_chain:
  assumes "truthy (map_of (userCache s) userId) = None"
      and "ui userId = Resolves r" and "info_ok r" and "info_user r = Some u"
      and "name = (case truthy (map_option trim (Option.bind (user_profile u) display_name)) of
                     Some d \<Rightarrow> d
                   | None \<Rightarrow>
                       (case truthy (map_option trim (Option.bind (user_profile u) profile_real_name)) of
                          Some n \<Rightarrow> n
                        | None \<Rightarrow>
                            (case truthy (user_real_name u) of
                               Some n \<Rightarrow> n
                             | None \<Rightarrow> userId)))"
  shows "getUserName ui userId s = Returns name (setUserCache userId name (called (UsersInfo userId) s))
       \<and> (truthy (user_real_name u) = None \<longrightarrow> name = spec_resolveName (user_profile u) userId)
       \<and> extractDisplayName u =
           (case truthy (map_option trim (Option.bind (user_profile u) display_name)) of
              Some d \<Rightarrow> d
            | None \<Rightarrow>
                (case truthy (map_option trim (Option.bind (user_profile u) profile_real_name)) of
                   Some n \<Rightarrow> n
                 | None \<Rightarrow>
                     (case truthy (user_real_name u) of
                        Some n \<Rightarrow> n
                      | None \<Rightarrow> (case truthy (user_id u) of Some i \<Rightarrow> i | None \<Rightarrow> ''unknown''))))"
proof -
  have a: "getUserName ui userId s = Returns name (setUserCache userId name (called (UsersInfo userId) s))"
    using assms getUserName_try_ok[where ui = ui and userId = userId and r = r and u = u and s = s]
    by (simp add: getUserName_def orElse_truthy)
  have b: "truthy (user_real_name u) = None \<longrightarrow> name = spec_resolveName (user_profile u) userId"
    using assms(5) by (simp add: spec_resolveName_def split: option.splits)
  show ?thesis using a b by (simp add: extractDisplayName_def orElse_truthy Let_def)
qed

theorem user_name_fallback_chain_witness:
  "truthy (map_of (userCache initialState) ''U1'') = None
   \<and> getUserName
     (\<lambda>_. Resolves \<lparr>info_ok = True, info_error = None,
                     info_user = Some \<lparr>user_id = Some ''U1'', user_real_name = None,
                                       user_profile = Some \<lparr>display_name = Some ''  '', profile_real_name = Some '' Ann Lee ''\<rparr>\<rparr>\<rparr>)
     ''U1'' initialState
   = Returns ''Ann Lee'' (setUserCache ''U1'' ''Ann Lee'' (called (UsersInfo ''U1'') initialState))
   \<and> ''Ann Lee'' = spec_resolveName (Some \<lparr>display_name = Some ''  '', profile_real_name = Some '' Ann Lee ''\<rparr>) ''U1''"
proof -
  have n: "''Ann Lee'' = (case truthy (map_option trim (Option.bind (user_profile \<lparr>user_id = Some ''U1'', user_real_name = None,
                                       user_profile = Some \<lparr>display_name = Some ''  '', profile_real_name = Some '' Ann Lee ''\<rparr>\<rparr>) display_name)) of
                     Some d \<Rightarrow> d
                   | None \<Rightarrow>
                       (case truthy (map_option trim (Option.bind (user_profile \<lparr>user_id = Some ''U1'', user_real_name = None,
                                       user_profile = Some \<lparr>display_name = Some ''  '', profile_real_name = Some '' Ann Lee ''\<rparr>\<rparr>) profile_real_name)) of
                          Some n \<Rightarrow> n
                        | None \<Rightarrow>
                            (case truthy (user_real_name \<lparr>user_id = Some ''U1'', user_real_name = None,
                                       user_profile = Some \<lparr>display_name = Some ''  '', profile_real_name = Some '' Ann Lee ''\<rparr>\<rparr>) of
                               Some n \<Rightarrow> n
                             | None \<Rightarrow> ''U1'')))"
    by code_simp
  have m: "truthy (map_of (userCache initialState) ''U1'') = None" by code_simp
  show ?thesis
    using n user_name_fallback_chain[where s = initialState and userId = "''U1''" and name = "''Ann Lee''" and ui = "\<lambda>_. Resolves \<lparr>info_ok = True, info_error = None,
                     info_user = Some \<lparr>user_id = Some ''U1'', user_real_name = None,
                                       user_profile = Some \<lparr>display_name = Some ''  '', profile_real_name = Some '' Ann Lee ''\<rparr>\<rparr>\<rparr>"
        and r = "\<lparr>info_ok = True, info_error = None,
                     info_user = Some \<lparr>user_id = Some ''U1'', user_real_name = None,
                                       user_profile = Some \<lparr>display_name = Some ''  '', profile_real_name = Some '' Ann Lee ''\<rparr>\<rparr>\<rparr>"] m
    by simp
qed

text \<open>
  C3 as it is worded fails on a user whose profile has neither name and whose record has a
  real name of its own: the result is that real name, not the raw identifier.
\<close>

theorem user_name_fallback_chain_counterexample:
  "getUserName
     (\<lambda>_. Resolves \<lparr>info_ok = True, info_error = None,
                     info_user = Some \<lparr>user_id = Some ''U1'', user_real_name = Some ''Bob'',
                                       user_profile = Some \<lparr>display_name = None, profile_real_name = None\<rparr>\<rparr>\<rparr>)
     ''U1'' initialState
   = Returns ''Bob'' (initialState\<lparr>userCache := [(''U1'', ''Bob'')], requests := [UsersInfo ''U1'']\<rparr>)
   \<and> spec_resolveName (Some \<lparr>display_name = None, profile_real_name = None\<rparr>) ''U1'' = ''U1''
   \<and> ''Bob'' \<noteq> ''U1''"
  by code_simp

subsection \<open>Failed lookups\<close>

lemma getUserName_never_throws:
  "getUserName ui userId s \<noteq> Throws e t \<and> getUserName ui userId s \<noteq> Hangs"
  by (auto simp: getUserName_def getUserName_try_def Let_def split: option.splits remote.splits outcome.splits)

lemma getUserName_failure:
  assumes "truthy (map_of (userCache s) userId) = None"
      and "(\<exists>err. ui userId = Rejects err)
           \<or> (\<exists>r. ui userId = Resolves r \<and> (\<not> info_ok r \<or> info_user r = None))"
  shows "getUserName ui userId s = Returns userId (setUserCache userId userId (called (UsersInfo userId) s))"
  using assms
  by (auto simp: getUserName_def getUserName_try_def Let_def)

lemma getUserName_cached:
  assumes "map_of (userCache s) userId = Some n" "n \<noteq> []"
  shows "getUserName ui userId s = Returns n s"
  using assms by (simp add: getUserName_def truthy_Some_iff[THEN iffD2])

text \<open>
  C4. \<open>getUserName\<close> never throws and never hangs. When the cache misses and the lookup
  fails (the call is rejected, with the rate-limit code or another, or the envelope is not
  ok, or it carries no user), the identifier is stored as its own display name and
  returned, after one request. A user id is a non-empty string (\<open>resolveUserName\<close> passes
  no other): resolving it again then answers from the cache, whatever the remote would
  say, and leaves the state, with its trace of requests, as it is.
\<close>

theorem user_lookup_failure_is_cached:
  assumes "truthy (map_of (userCache s) userId) = None"
      and "(\<exists>err. ui userId = Rejects err)
           \<or> (\<exists>r. ui userId = Resolves r \<and> (\<not> info_ok r \<or> info_user r = None))"
      and "s' = setUserCache userId userId (called (UsersInfo userId) s)"
  shows "getUserName ui userId s = Returns userId s'
       \<and> map_of (userCache s') userId = Some userId
       \<and> requests s' = requests s @ [UsersInfo userId]
       \<and> (userId \<noteq> [] \<longrightarrow> (\<forall>ui'. getUserName ui' userId s' = Returns userId s'))
       \<and> (\<forall>ui' uid t e t'. getUserName ui' uid t \<noteq> Throws e t' \<and> getUserName ui' uid t \<noteq> Hangs)"
proof -
  have c: "map_of (userCache s') userId = Some userId"
    by (simp add: assms(3) setUserCache_def called_def update_conv')
  have r: "requests s' = requests s @ [UsersInfo userId]"
    by (simp add: assms(3) setUserCache_def called_def)
  show ?thesis
    using getUserName_failure[where ui = ui and userId = userId and s = s] assms(1,2)
      c r getUserName_cached[OF c] getUserName_never_throws
    by (simp add: assms(3))
qed

theorem user_lookup_failure_is_cached_witness:
  "truthy (map_of (userCache initialState) ''U9'') = None
   \<and> getUserName (\<lambda>_. Rejects RateLimitedError) ''U9'' initialState
       = Returns ''U9'' (initialState\<lparr>userCache := [(''U9'', ''U9'')], requests := [UsersInfo ''U9'']\<rparr>)
   \<and> getUserName (\<lambda>_. Resolves \<lparr>info_ok = True, info_error = None, info_user = None\<rparr>) ''U9''
        (initialState\<lparr>userCache := [(''U9'', ''U9'')], requests := [UsersInfo ''U9'']\<rparr>)
       = Returns ''U9'' (initialState\<lparr>userCache := [(''U9'', ''U9'')], requests := [UsersInfo ''U9'']\<rparr>)"
proof -
  have m: "truthy (map_of (userCache initialState) ''U9'') = None" by code_simp
  have f: "(\<exists>err. (\<lambda>_. Rejects RateLimitedError) ''U9'' = Rejects err)
           \<or> (\<exists>r. (\<lambda>_::string. Rejects RateLimitedError) ''U9'' = Resolves (r::UsersInfoResponse) \<and> (\<not> info_ok r \<or> info_user r = None))"
    by simp
  have s: "initialState\<lparr>userCache := [(''U9'', ''U9'')], requests := [UsersInfo ''U9'']\<rparr>
           = setUserCache ''U9'' ''U9'' (called (UsersInfo ''U9'') initialState)"
    by (simp add: setUserCache_def called_def initialState_def)
  show ?thesis
    using user_lookup_failure_is_cached[where ui = "\<lambda>_. Rejects RateLimitedError" and userId = "''U9''"
        and s = initialState and s' = "initialState\<lparr>userCache := [(''U9'', ''U9'')], requests := [UsersInfo ''U9'']\<rparr>"] m f s
    by simp
qed

subsection \<open>Draining the message history\<close>

lemma fetchHistory_loop_drains:
  assumes "ps \<noteq> []"
      and "\<forall>p \<in> set ps. page_ok p"
      and "\<forall>p \<in> set (butlast ps). truthy (next_cursor p) \<noteq> None"
      and "truthy (next_cursor (last ps)) = None"
  shows "fetchHistory_loop (map Resolves ps @ later) channelId oldest latest cursor acc s
         = Returns (acc @ concat (map (\<lambda>p. nullish (page_items p) []) ps))
             (s\<lparr>requests := requests s @
                  map (\<lambda>c. ConversationsHistory channelId c oldest latest)
                      (cursor # map (\<lambda>p. truthy (next_cursor p)) (butlast ps))\<rparr>)"
  using assms
proof (induction ps arbitrary: cursor acc s)
  case Nil
  then show ?case by simp
next
  case (Cons p ps)
  show ?case
  proof (cases ps)
    case Nil
    with Cons.prems show ?thesis
      by (cases "page_items p") (simp_all add: called_def)
  next
    case (Cons q qs)
    have step: "fetchHistory_loop (map Resolves ps @ later) channelId oldest latest (truthy (next_cursor p))
                  (acc @ nullish (page_items p) []) (called (ConversationsHistory channelId cursor oldest latest) s)
         = Returns ((acc @ nullish (page_items p) []) @ concat (map (\<lambda>p. nullish (page_items p) []) ps))
             ((called (ConversationsHistory channelId cursor oldest latest) s)\<lparr>requests := requests (called (ConversationsHistory channelId cursor oldest latest) s) @
                  map (\<lambda>c. ConversationsHistory channelId c oldest latest)
                      (truthy (next_cursor p) # map (\<lambda>p. truthy (next_cursor p)) (butlast ps))\<rparr>)"
      using Cons.prems Cons by (intro Cons.IH) auto
    have nxt: "truthy (next_cursor p) \<noteq> None" "page_ok p"
      using Cons.prems Cons by auto
    show ?thesis
      using step nxt Cons
      by (cases "page_items p") (simp_all add: called_def)
  qed
qed

text \<open>
  C1. Let the remote answer the successive history calls with the pages \<open>ps\<close>, all ok, all
  but the last with a non-empty next cursor and the last with none (absent or empty),
  whatever it would answer after them. Then the loop of \<open>fetchHistory\<close> makes one request
  per page, the first without a cursor and each next one with the cursor of the page
  before, stops at the last page, and has collected the items of the pages in page order,
  each page's items in the order delivered. (\<open>fetchHistory\<close> then sorts what the loop
  collected by \<open>ts\<close>, see \<open>fetchHistory_sorts\<close> below.)
\<close>

theorem history_pagination:
  assumes "ps \<noteq> []"
      and "\<forall>p \<in> set ps. page_ok p"
      and "\<forall>p \<in> set (butlast ps). truthy (next_cursor p) \<noteq> None"
      and "truthy (next_cursor (last ps)) = None"
  shows "fetchHistory_loop (map Resolves ps @ later) channelId oldest latest None [] s
         = Returns (concat (map (\<lambda>p. nullish (page_items p) []) ps))
             (s\<lparr>requests := requests s @
                  map (\<lambda>c. ConversationsHistory channelId c oldest latest)
                      (None # map (\<lambda>p. truthy (next_cursor p)) (butlast ps))\<rparr>)"
  using fetchHistory_loop_drains[OF assms, of later channelId oldest latest None "[]" s] by simp

theorem history_pagination_witness:
  "fetchHistory_loop
     (map Resolves [samplePage [sampleMessage ''3'', sampleMessage ''1''] (Some ''c1''),
                    samplePage [sampleMessage ''2''] None]
      @ [Resolves (samplePage [sampleMessage ''9''] None)])
     ''C1'' None None None [] initialState
   = Returns [sampleMessage ''3'', sampleMessage ''1'', sampleMessage ''2'']
       (initialState\<lparr>requests := [ConversationsHistory ''C1'' None None None,
                                   ConversationsHistory ''C1'' (Some ''c1'') None None]\<rparr>)"
  using history_pagination[of "[samplePage [sampleMessage ''3'', sampleMessage ''1''] (Some ''c1''),
                    samplePage [sampleMessage ''2''] None]" "[Resolves (samplePage [sampleMessage ''9''] None)]"
       "''C1''" None None initialState]
  by (simp add: samplePage_def initialState_def)

lemma mset_insertBy: "mset (insertBy cmp x xs) = add_mset x (mset xs)"
  by (induction xs) auto

lemma mset_sortBy: "mset (sortBy cmp xs) = mset xs"
  by (induction xs) (auto simp: sortBy_def mset_insertBy)

lemma set_sortBy: "set (sortBy cmp xs) = set xs"
  by (metis mset_sortBy set_mset_mset)

lemma positive_compareTs:
  assumes "tsNumber a = Num x" "tsNumber b = Num y"
  shows "positive (compareTs a b) \<longleftrightarrow> y < x"
  using assms by (simp add: compareTs_def tsNumber_def)

lemma set_insertBy: "set (insertBy cmp x xs) = insert x (set xs)"
  by (metis mset_insertBy set_mset_add_mset_insert set_mset_mset)

lemma sorted_insertBy:
  assumes "\<forall>m \<in> set (x # xs). \<exists>t. tsNumber m = Num t" "sorted_wrt tsLeq xs"
  shows "sorted_wrt tsLeq (insertBy compareTs x xs)"
  using assms
proof (induction xs)
  case Nil
  then show ?case by simp
next
  case (Cons y ys)
  obtain a b where ab: "tsNumber x = Num a" "tsNumber y = Num b"
    using Cons.prems(1) by auto
  show ?case
  proof (cases "b < a")
    case True
    have "sorted_wrt tsLeq (insertBy compareTs x ys)"
      using Cons by auto
    moreover have "\<forall>z \<in> set (insertBy compareTs x ys). tsLeq y z"
      using Cons.prems(2) True ab by (auto simp: set_insertBy tsLeq_def)
    ultimately show ?thesis
      using True ab by (simp add: positive_compareTs)
  next
    case False
    have "\<forall>z \<in> set ys. tsLeq x z"
    proof
      fix z assume z: "z \<in> set ys"
      then obtain c where c: "tsNumber z = Num c" using Cons.prems(1) by auto
      have "tsLeq y z" using Cons.prems(2) z by simp
      then show "tsLeq x z" using ab c False by (simp add: tsLeq_def)
    qed
    then show ?thesis
      using False ab Cons.prems(2) by (simp add: positive_compareTs tsLeq_def)
  qed
qed

lemma sorted_sortBy:
  assumes "\<forall>m \<in> set xs. \<exists>t. tsNumber m = Num t"
  shows "sorted_wrt tsLeq (sortBy compareTs xs)"
  using assms
proof (induction xs)
  case Nil
  then show ?case by (simp add: sortBy_def)
next
  case (Cons x xs)
  have "sorted_wrt tsLeq (sortBy compareTs xs)" using Cons by simp
  moreover have "\<forall>m \<in> set (x # sortBy compareTs xs). \<exists>t. tsNumber m = Num t"
    using Cons.prems by (simp add: set_sortBy)
  ultimately have "sorted_wrt tsLeq (insertBy compareTs x (sortBy compareTs xs))"
    by (rule sorted_insertBy[rotated])
  then show ?case by (simp add: sortBy_def)
qed

lemma fetchHistory_sorts:
  assumes "ps \<noteq> []"
      and "\<forall>p \<in> set ps. page_ok p"
      and "\<forall>p \<in> set (butlast ps). truthy (next_cursor p) \<noteq> None"
      and "truthy (next_cursor (last ps)) = None"
      and "oldest = map_option (\<lambda>d. scale_number (1 / 1000) (getTime d)) startDate"
      and "latest = map_option (\<lambda>d. scale_number (1 / 1000) (getTime d)) endDate"
      and "history channelId oldest latest = map Resolves ps @ later"
  shows "\<exists>ms s'. fetchHistory history channelId startDate endDate s = Returns ms s'
           \<and> ms = sortBy compareTs (concat (map (\<lambda>p. nullish (page_items p) []) ps))
           \<and> mset ms = mset (concat (map (\<lambda>p. nullish (page_items p) []) ps))
           \<and> ((\<forall>m \<in> set ms. \<exists>t. tsNumber m = Num t) \<longrightarrow> sorted_wrt tsLeq ms)"
  using fetchHistory_loop_drains[OF assms(1-4), of later channelId oldest latest None "[]" s]
    assms(5-7) sorted_sortBy[of "concat (map (\<lambda>p. nullish (page_items p) []) ps)"]
  by (simp add: fetchHistory_def Let_def mset_sortBy set_sortBy)

subsection \<open>Thread expansion\<close>

lemma fetchThreadReplies_filtered:
  assumes "fetchThreadReplies thread channelId threadTs s = Returns rs s'"
  shows "\<forall>r \<in> set rs. msg_ts r \<noteq> Some threadTs"
  using assms by (auto simp: fetchThreadReplies_def split: outcome.splits)

lemma threadRepliesOf_result:
  assumes "threadRepliesOf thread channelId m s = Returns rs s'"
  shows "(truthy (msg_thread_ts m) = None \<or> msg_reply_count m = None \<or> msg_reply_count m = Some 0 \<longrightarrow> rs = [])
       \<and> (\<forall>r \<in> set rs. msg_ts r \<noteq> msg_thread_ts m)"
proof (cases "truthy (msg_thread_ts m)")
  case None
  with assms show ?thesis by (simp add: threadRepliesOf_def)
next
  case (Some t)
  then have t: "msg_thread_ts m = Some t" by (simp add: truthy_Some_iff)
  show ?thesis
  proof (cases "\<exists>n. msg_reply_count m = Some n \<and> 0 < n")
    case False
    with assms Some show ?thesis
      by (auto simp: threadRepliesOf_def split: option.splits if_splits)
  next
    case True
    with assms Some have "fetchThreadReplies thread channelId t s = Returns rs s'"
      by (auto simp: threadRepliesOf_def)
    from fetchThreadReplies_filtered[OF this] True t Some show ?thesis by auto
  qed
qed

lemma expandThreads_loop_result:
  assumes "expandThreads_loop thread channelId ms acc s = Returns aggs s'"
  shows "\<exists>new. aggs = acc @ new \<and> map message new = ms
          \<and> (\<forall>a \<in> set new.
                (truthy (msg_thread_ts (message a)) = None \<or> msg_reply_count (message a) = None
                   \<or> msg_reply_count (message a) = Some 0 \<longrightarrow> replies a = [])
              \<and> (\<forall>r \<in> set (replies a). msg_ts r \<noteq> msg_thread_ts (message a)))"
  using assms
proof (induction ms arbitrary: acc s)
  case Nil
  then show ?case by simp
next
  case (Cons m ms)
  from Cons.prems obtain rs s1 where
    one: "threadRepliesOf thread channelId m s = Returns rs s1"
    and rest: "expandThreads_loop thread channelId ms (acc @ [\<lparr>message = m, replies = rs\<rparr>]) s1 = Returns aggs s'"
    by (auto split: outcome.splits)
  from Cons.IH[OF rest] obtain new where
    new: "aggs = (acc @ [\<lparr>message = m, replies = rs\<rparr>]) @ new" "map message new = ms"
      "\<forall>a \<in> set new.
                (truthy (msg_thread_ts (message a)) = None \<or> msg_reply_count (message a) = None
                   \<or> msg_reply_count (message a) = Some 0 \<longrightarrow> replies a = [])
              \<and> (\<forall>r \<in> set (replies a). msg_ts r \<noteq> msg_thread_ts (message a))"
    by blast
  show ?case
    using new threadRepliesOf_result[OF one]
    by (intro exI[of _ "\<lparr>message = m, replies = rs\<rparr> # new"]) simp
qed

text \<open>
  C2. When \<open>expandThreads\<close> returns, there is one aggregate per message, in order. An
  aggregate whose message has no thread anchor (absent or empty) or whose reply count is
  absent or zero has no replies, and no aggregate holds among its replies a message whose
  \<open>ts\<close> is the thread anchor of its root.
\<close>

theorem thread_expansion:
  assumes "expandThreads thread channelId ms s = Returns aggs s'"
  shows "map message aggs = ms
       \<and> (\<forall>a \<in> set aggs.
             (truthy (msg_thread_ts (message a)) = None \<or> msg_reply_count (message a) = None
                \<or> msg_reply_count (message a) = Some 0 \<longrightarrow> replies a = [])
           \<and> (\<forall>r \<in> set (replies a). msg_ts r \<noteq> msg_thread_ts (message a)))"
  using expandThreads_loop_result[of thread channelId ms "[]" s aggs s'] assms
  by (auto simp: expandThreads_def)

theorem thread_expansion_witness:
  "expandThreads sampleThread ''C1''
     [(sampleMessage ''10.0'')\<lparr>msg_thread_ts := Some ''10.0'', msg_reply_count := Some 2\<rparr>,
      sampleMessage ''20.0''] initialState
   = Returns
       [\<lparr>message = (sampleMessage ''10.0'')\<lparr>msg_thread_ts := Some ''10.0'', msg_reply_count := Some 2\<rparr>,
         replies = [sampleMessage ''11.0'', sampleMessage ''12.0'']\<rparr>,
        \<lparr>message = sampleMessage ''20.0'', replies = []\<rparr>]
       (initialState\<lparr>requests := [ConversationsReplies ''C1'' ''10.0'' None,
                                   ConversationsReplies ''C1'' ''10.0'' (Some ''next'')]\<rparr>)
   \<and> msg_ts (sampleMessage ''11.0'') \<noteq> Some ''10.0''
   \<and> msg_ts (sampleMessage ''12.0'') \<noteq> Some ''10.0''"
proof -
  have run: "expandThreads sampleThread ''C1''
     [(sampleMessage ''10.0'')\<lparr>msg_thread_ts := Some ''10.0'', msg_reply_count := Some 2\<rparr>,
      sampleMessage ''20.0''] initialState
   = Returns
       [\<lparr>message = (sampleMessage ''10.0'')\<lparr>msg_thread_ts := Some ''10.0'', msg_reply_count := Some 2\<rparr>,
         replies = [sampleMessage ''11.0'', sampleMessage ''12.0'']\<rparr>,
        \<lparr>message = sampleMessage ''20.0'', replies = []\<rparr>]
       (initialState\<lparr>requests := [ConversationsReplies ''C1'' ''10.0'' None,
                                   ConversationsReplies ''C1'' ''10.0'' (Some ''next'')]\<rparr>)"
    by code_simp
  from thread_expansion[OF run] run show ?thesis by (simp add: sampleMessage_def)
qed

text \<open>Against answers that let every loop end, thread expansion returns.\<close>

lemma fetchThreadReplies_loop_returns:
  "endsNormally pages \<Longrightarrow>
   \<exists>rs s'. fetchThreadReplies_loop pages channelId threadTs cursor acc s = Returns rs s'"
proof (induction pages arbitrary: cursor acc s)
  case Nil
  then show ?case by simp
next
  case (Cons r rs)
  show ?case
  proof (cases r)
    case (Rejects err)
    with Cons.prems show ?thesis by simp
  next
    case (Resolves p)
    show ?thesis
    proof (cases "truthy (next_cursor p) = None")
      case True
      with Cons.prems Resolves show ?thesis by (simp add: Let_def)
    next
      case False
      with Cons.prems Resolves have "endsNormally rs" by simp
      from Cons.IH[OF this] False Cons.prems Resolves show ?thesis by (simp add: Let_def)
    qed
  qed
qed

lemma threadRepliesOf_returns:
  assumes "\<forall>t. endsNormally (thread channelId t)"
  shows "\<exists>rs s'. threadRepliesOf thread channelId m s = Returns rs s'"
proof -
  have "\<exists>rs s'. fetchThreadReplies thread channelId t s = Returns rs s'" for t
    using fetchThreadReplies_loop_returns[of "thread channelId t" channelId t None "[]" s] assms
    by (auto simp: fetchThreadReplies_def)
  then show ?thesis
    by (auto simp: threadRepliesOf_def split: option.splits)
qed

lemma expandThreads_loop_returns:
  assumes "\<forall>t. endsNormally (thread channelId t)"
  shows "\<exists>aggs s'. expandThreads_loop thread channelId ms acc s = Returns aggs s'"
proof (induction ms arbitrary: acc s)
  case Nil
  then show ?case by simp
next
  case (Cons m ms)
  from threadRepliesOf_returns[where thread = thread and channelId = channelId and m = m and s = s] assms obtain rs s1 where
    "threadRepliesOf thread channelId m s = Returns rs s1" by blast
  with Cons.IH[of "acc @ [\<lparr>message = m, replies = rs\<rparr>]" s1] show ?case by simp
qed

lemma expandThreads_returns:
  assumes "\<forall>t. endsNormally (thread channelId t)"
  shows "\<exists>aggs s'. expandThreads thread channelId ms s = Returns aggs s'"
  using expandThreads_loop_returns[where thread = thread and channelId = channelId] assms
  by (simp add: expandThreads_def)

subsection \<open>Rows of replies\<close>

lemma escapeCsv_zero: "escapeCsv ''0'' = ''0''"
  by code_simp

lemma csvReplyFields_columns:
  assumes "csvReplyFields h cn r s = Returns row s'"
  shows "anchorAndCount row = (escapeCsv (nullish (msg_thread_ts r) []), ''0'')"
  using csvReplyFields_row[OF assms] by (auto simp: anchorAndCount_def escapeCsv_zero)

lemma csvMessageFields_columns:
  assumes "csvMessageFields h cn m s = Returns row s'"
  shows "anchorAndCount row = (escapeCsv (nullish (msg_thread_ts m) []),
                               escapeCsv (showInt (nullish (msg_reply_count m) 0)))"
  using csvMessageFields_row[OF assms] by (auto simp: anchorAndCount_def)

lemma csvReplies_loop_columns:
  assumes "csvReplies_loop h cn rs acc s = Returns rows s'"
  shows "map anchorAndCount rows
         = map anchorAndCount acc @ map (\<lambda>r. (escapeCsv (nullish (msg_thread_ts r) []), ''0'')) rs"
  using assms
proof (induction rs arbitrary: acc s)
  case Nil
  then show ?case by simp
next
  case (Cons r rs)
  from Cons.prems obtain row s1 where
    one: "csvReplyFields h cn r s = Returns row s1"
    and rest: "csvReplies_loop h cn rs (acc @ [row]) s1 = Returns rows s'"
    by (auto split: outcome.splits)
  show ?case
    using Cons.IH[OF rest] csvReplyFields_columns[OF one] by simp
qed

lemma csvMessages_loop_columns:
  assumes "csvMessages_loop h cn aggs acc s = Returns rows s'"
  shows "map anchorAndCount rows = map anchorAndCount acc @ concat (map groupColumns aggs)"
  using assms
proof (induction aggs arbitrary: acc s)
  case Nil
  then show ?case by simp
next
  case (Cons a aggs)
  from Cons.prems obtain row s1 rows1 s2 where
    root: "csvMessageFields h cn (message a) s = Returns row s1"
    and reps: "csvReplies_loop h cn (replies a) (acc @ [row]) s1 = Returns rows1 s2"
    and rest: "csvMessages_loop h cn aggs rows1 s2 = Returns rows s'"
    by (auto split: outcome.splits)
  show ?case
    using Cons.IH[OF rest] csvReplies_loop_columns[OF reps] csvMessageFields_columns[OF root]
    by (simp add: groupColumns_def)
qed

lemma map_const_replicate: "(\<forall>x \<in> set xs. f x = c) \<Longrightarrow> map f xs = replicate (length xs) c"
  by (induction xs) auto

text \<open>
  C5, as amended. When the delimited renderer returns, its rows are, aggregate by
  aggregate, the row of the root followed by one row per reply. The reply-count column of
  a reply row is the literal \<open>0\<close>, that of a root row is the root's count (0 when absent).
  The thread-anchor column of a reply row is the reply's own \<open>thread_ts\<close>, escaped, empty
  when the reply has none; where every reply carries the \<open>thread_ts\<close> of its root, the
  column is the root's in every row of the aggregate.
\<close>

theorem csv_reply_rows:
  assumes "csvRows h cn aggs s = Returns rows s'"
  shows "map (\<lambda>row. (row ! 4, row ! 5)) rows
         = concat (map (\<lambda>a. (escapeCsv (nullish (msg_thread_ts (message a)) []),
                              escapeCsv (showInt (nullish (msg_reply_count (message a)) 0)))
                             # map (\<lambda>r. (escapeCsv (nullish (msg_thread_ts r) []), ''0'')) (replies a))
                       aggs)
       \<and> ((\<forall>a \<in> set aggs. \<forall>r \<in> set (replies a). msg_thread_ts r = msg_thread_ts (message a)) \<longrightarrow>
            map (\<lambda>row. row ! 4) rows
            = concat (map (\<lambda>a. replicate (Suc (length (replies a)))
                                  (escapeCsv (nullish (msg_thread_ts (message a)) []))) aggs))"
proof -
  have a: "anchorAndCount = (\<lambda>row. (row ! 4, row ! 5))"
    by (auto simp: anchorAndCount_def)
  have g: "groupColumns = (\<lambda>a. (escapeCsv (nullish (msg_thread_ts (message a)) []),
                              escapeCsv (showInt (nullish (msg_reply_count (message a)) 0)))
                             # map (\<lambda>r. (escapeCsv (nullish (msg_thread_ts r) []), ''0'')) (replies a))"
    by (auto simp: groupColumns_def)
  have cols: "map anchorAndCount rows = concat (map groupColumns aggs)"
    using csvMessages_loop_columns[of h cn aggs "[]" s rows s'] assms by (simp add: csvRows_def)
  have same: "map (\<lambda>row. row ! 4) rows
            = concat (map (\<lambda>a. replicate (Suc (length (replies a)))
                                  (escapeCsv (nullish (msg_thread_ts (message a)) []))) aggs)"
    if inh: "\<forall>a \<in> set aggs. \<forall>r \<in> set (replies a). msg_thread_ts r = msg_thread_ts (message a)"
  proof -
    have "map (\<lambda>row. row ! 4) rows = map fst (map anchorAndCount rows)"
      by (simp add: anchorAndCount_def comp_def)
    also have "\<dots> = concat (map (map fst \<circ> groupColumns) aggs)"
      by (simp add: cols map_concat)
    also have "\<dots> = concat (map (\<lambda>a. replicate (Suc (length (replies a)))
                                  (escapeCsv (nullish (msg_thread_ts (message a)) []))) aggs)"
    proof (rule arg_cong[where f = concat], rule map_cong[OF refl])
      fix a assume "a \<in> set aggs"
      with inh have "\<forall>r \<in> set (replies a).
          escapeCsv (nullish (msg_thread_ts r) []) = escapeCsv (nullish (msg_thread_ts (message a)) [])"
        by simp
      from map_const_replicate[OF this]
      show "(map fst \<circ> groupColumns) a
            = replicate (Suc (length (replies a))) (escapeCsv (nullish (msg_thread_ts (message a)) []))"
        by (simp add: groupColumns_def comp_def)
    qed
    finally show ?thesis .
  qed
  show ?thesis using cols same unfolding a g by blast
qed


theorem csv_reply_rows_witness:
  "csvRows (sampleHost (\<lambda>_. Rejects OtherError)) ''general''
     [\<lparr>message = (sampleMessage ''1.0'')\<lparr>msg_thread_ts := Some ''1.0'', msg_reply_count := Some 1\<rparr>,
       replies = [(sampleMessage ''1.1'')\<lparr>msg_thread_ts := Some ''1.0''\<rparr>]\<rparr>] initialState
   = Returns [[''T1000'', ''general'', ''U1'', ''hello'', ''1.0'', ''1''],
              [''T1100'', ''general'', ''U1'', ''hello'', ''1.0'', ''0'']]
       (initialState\<lparr>userCache := [(''U1'', ''U1'')], requests := [UsersInfo ''U1'']\<rparr>)
   \<and> map (\<lambda>row. row ! 4) [[''T1000'', ''general'', ''U1'', ''hello'', ''1.0'', ''1''],
              [''T1100'', ''general'', ''U1'', ''hello'', ''1.0'', ''0'']]
     = [''1.0'', ''1.0'']"
proof -
  have run: "csvRows (sampleHost (\<lambda>_. Rejects OtherError)) ''general''
     [\<lparr>message = (sampleMessage ''1.0'')\<lparr>msg_thread_ts := Some ''1.0'', msg_reply_count := Some 1\<rparr>,
       replies = [(sampleMessage ''1.1'')\<lparr>msg_thread_ts := Some ''1.0''\<rparr>]\<rparr>] initialState
   = Returns [[''T1000'', ''general'', ''U1'', ''hello'', ''1.0'', ''1''],
              [''T1100'', ''general'', ''U1'', ''hello'', ''1.0'', ''0'']]
       (initialState\<lparr>userCache := [(''U1'', ''U1'')], requests := [UsersInfo ''U1'']\<rparr>)"
    by code_simp
  from csv_reply_rows[OF run] run show ?thesis by (simp add: sampleMessage_def)
qed

text \<open>
  C5 as it is worded fails on a reply that carries no \<open>thread_ts\<close>: its thread-anchor
  column is empty, not the anchor of its root.
\<close>

theorem csv_reply_rows_counterexample:
  "csvRows (sampleHost (\<lambda>_. Rejects OtherError)) ''general''
     [\<lparr>message = (sampleMessage ''1.0'')\<lparr>msg_thread_ts := Some ''1.0'', msg_reply_count := Some 1\<rparr>,
       replies = [sampleMessage ''1.1'']\<rparr>] initialState
   = Returns [[''T1000'', ''general'', ''U1'', ''hello'', ''1.0'', ''1''],
              [''T1100'', ''general'', ''U1'', ''hello'', [], ''0'']]
       (initialState\<lparr>userCache := [(''U1'', ''U1'')], requests := [UsersInfo ''U1'']\<rparr>)
   \<and> [''T1100'', ''general'', ''U1'', ''hello'', [], ''0''] ! 4
       \<noteq> [''T1000'', ''general'', ''U1'', ''hello'', ''1.0'', ''1''] ! 4"
proof -
  have run: "csvRows (sampleHost (\<lambda>_. Rejects OtherError)) ''general''
     [\<lparr>message = (sampleMessage ''1.0'')\<lparr>msg_thread_ts := Some ''1.0'', msg_reply_count := Some 1\<rparr>,
       replies = [sampleMessage ''1.1'']\<rparr>] initialState
   = Returns [[''T1000'', ''general'', ''U1'', ''hello'', ''1.0'', ''1''],
              [''T1100'', ''general'', ''U1'', ''hello'', [], ''0'']]
       (initialState\<lparr>userCache := [(''U1'', ''U1'')], requests := [UsersInfo ''U1'']\<rparr>)"
    by code_simp
  show ?thesis using run by simp
qed

subsection \<open>The date window\<close>












subsection \<open>Snapshots written and read back\<close>

lemma update_fresh: "k \<notin> fst ` set al \<Longrightarrow> AList.update k v al = al @ [(k, v)]"
  by (induction al) auto

lemma map_upd_add_swap: "k \<notin> dom n \<Longrightarrow> m(k \<mapsto> v) ++ n = m ++ n(k \<mapsto> v)"
  by (rule ext) (auto simp: map_add_def split: option.splits)

lemma populateUsers_others:
  "requests (populateUsers es s) = requests s
   \<and> userCacheFile (populateUsers es s) = userCacheFile s
   \<and> channelCacheFile (populateUsers es s) = channelCacheFile s
   \<and> channelNameToIdCache (populateUsers es s) = channelNameToIdCache s
   \<and> channelIdToNameCache (populateUsers es s) = channelIdToNameCache s"
  by (induction es s rule: populateUsers.induct) (simp_all add: setUserCache_def)

lemma populateUsers_map:
  "distinct (map fst es) \<Longrightarrow>
   map_of (userCache (populateUsers es s)) = map_of (userCache s) ++ map_of es"
proof (induction es s rule: populateUsers.induct)
  case (1 s)
  then show ?case by simp
next
  case (2 uid name es s)
  then have fresh: "uid \<notin> dom (map_of es)"
    by (auto simp: dom_map_of_conv_image_fst)
  have "map_of (userCache (populateUsers es (setUserCache uid name s)))
        = map_of (userCache (setUserCache uid name s)) ++ map_of es"
    using 2 by simp
  also have "map_of (userCache (setUserCache uid name s)) = (map_of (userCache s))(uid \<mapsto> name)"
    unfolding update_conv'[symmetric] by (simp add: setUserCache_def)
  also have "(map_of (userCache s))(uid \<mapsto> name) ++ map_of es
             = map_of (userCache s) ++ (map_of es)(uid \<mapsto> name)"
    by (rule map_upd_add_swap[OF fresh])
  finally show ?case
    by (simp only: populateUsers.simps populateChannels.simps map_of.simps fst_conv snd_conv)
qed

lemma populateUsers_list:
  "distinct (map fst (userCache s @ es)) \<Longrightarrow> userCache (populateUsers es s) = userCache s @ es"
proof (induction es s rule: populateUsers.induct)
  case (1 s)
  then show ?case by simp
next
  case (2 uid name es s)
  then have fresh: "uid \<notin> fst ` set (userCache s)" by auto
  have "userCache (setUserCache uid name s) = userCache s @ [(uid, name)]"
    by (simp add: setUserCache_def update_fresh[OF fresh])
  with 2 show ?case by simp
qed

lemma populateChannels_others:
  "requests (populateChannels es s) = requests s
   \<and> userCacheFile (populateChannels es s) = userCacheFile s
   \<and> channelCacheFile (populateChannels es s) = channelCacheFile s
   \<and> userCache (populateChannels es s) = userCache s"
  by (induction es s rule: populateChannels.induct) (simp_all add: setChannel_def)

lemma populateChannels_map:
  "distinct (map fst es) \<Longrightarrow>
   map_of (channelNameToIdCache (populateChannels es s)) = map_of (channelNameToIdCache s) ++ map_of es"
proof (induction es s rule: populateChannels.induct)
  case (1 s)
  then show ?case by simp
next
  case (2 name cid es s)
  then have fresh: "name \<notin> dom (map_of es)"
    by (auto simp: dom_map_of_conv_image_fst)
  have "map_of (channelNameToIdCache (populateChannels es (setChannel name cid s)))
        = map_of (channelNameToIdCache (setChannel name cid s)) ++ map_of es"
    using 2 by simp
  also have "map_of (channelNameToIdCache (setChannel name cid s))
             = (map_of (channelNameToIdCache s))(name \<mapsto> cid)"
    unfolding update_conv'[symmetric] by (simp add: setChannel_def)
  also have "(map_of (channelNameToIdCache s))(name \<mapsto> cid) ++ map_of es
             = map_of (channelNameToIdCache s) ++ (map_of es)(name \<mapsto> cid)"
    by (rule map_upd_add_swap[OF fresh])
  finally show ?case
    by (simp only: populateUsers.simps populateChannels.simps map_of.simps fst_conv snd_conv)
qed

lemma populateChannels_list:
  "distinct (map fst (channelNameToIdCache s @ es)) \<Longrightarrow>
   channelNameToIdCache (populateChannels es s) = channelNameToIdCache s @ es"
proof (induction es s rule: populateChannels.induct)
  case (1 s)
  then show ?case by simp
next
  case (2 name cid es s)
  then have fresh: "name \<notin> fst ` set (channelNameToIdCache s)" by auto
  have "channelNameToIdCache (setChannel name cid s) = channelNameToIdCache s @ [(name, cid)]"
    by (simp add: setChannel_def update_fresh[OF fresh])
  with 2 show ?case by simp
qed

text \<open>
  The object that \<open>prefetchUsers\<close> builds from the cache for the snapshot is the cache
  itself.
\<close>

lemma usersData_from:
  "distinct (map fst (acc @ al)) \<Longrightarrow>
   foldl (\<lambda>d (uid, name). AList.update uid name d) acc al = acc @ al"
proof (induction al arbitrary: acc)
  case Nil
  then show ?case by simp
next
  case (Cons e al)
  obtain uid name where e: "e = (uid, name)" by (cases e)
  with Cons.prems have "uid \<notin> fst ` set acc" by auto
  from update_fresh[OF this] Cons e show ?case by simp
qed

lemma usersData_identity:
  "distinct (map fst al) \<Longrightarrow> foldl (\<lambda>d (uid, name). AList.update uid name d) [] al = al"
  using usersData_from[of "[]" al] by simp

text \<open>
  C8. A snapshot file holds what \<open>JSON.parse\<close> reads back from it, so a written mapping is
  read back as it is. Loading the user snapshot (\<open>prefetchUsers\<close> without refresh) makes
  no request and adds the written mapping to the in-memory cache, over what the cache
  held: in a process that has loaded nothing yet the cache is the written mapping, entry
  by entry. The channel snapshot is read back as written; resolving a name that it holds
  makes no request and fills the name-to-id map in the same way. The keys of a written
  mapping are distinct, as those of an object are.
\<close>

theorem snapshot_round_trip:
  assumes "distinct (map fst us)" and "distinct (map fst cs)"
      and "su = populateUsers us (saveUserCacheToFile now us s)"
      and "sc = populateChannels cs (saveChannelCacheToFile now cs s)"
  shows "prefetchUsers list later False (saveUserCacheToFile now us s) = Returns () su
       \<and> map_of (userCache su) = map_of (userCache s) ++ map_of us
       \<and> (userCache s = [] \<longrightarrow> userCache su = us)
       \<and> requests su = requests s
       \<and> loadChannelCacheFromFile (saveChannelCacheToFile now cs s)
           = Some \<lparr>channels_updatedAt = now, channels_map = cs\<rparr>
       \<and> (\<not> startsWith (CHR ''C'') ref \<and> \<not> startsWith (CHR ''G'') ref
            \<and> truthy (map_of (channelNameToIdCache s) (normalizeName ref)) = None
            \<and> truthy (map_of cs (normalizeName ref)) = Some cid \<longrightarrow>
              resolveChannelId pages later ref (saveChannelCacheToFile now cs s) = Returns cid sc
            \<and> map_of (channelNameToIdCache sc) = map_of (channelNameToIdCache s) ++ map_of cs
            \<and> (channelNameToIdCache s = [] \<longrightarrow> channelNameToIdCache sc = cs)
            \<and> requests sc = requests s)"
proof -
  let ?fu = "saveUserCacheToFile now us s"
  let ?fc = "saveChannelCacheToFile now cs s"
  have u1: "prefetchUsers list later False ?fu = Returns () su"
    by (simp add: prefetchUsers_def loadUserCacheFromFile_def saveUserCacheToFile_def assms(3))
  have u2: "map_of (userCache su) = map_of (userCache s) ++ map_of us"
    using populateUsers_map[OF assms(1), of ?fu] by (simp add: assms(3) saveUserCacheToFile_def)
  have u3: "userCache s = [] \<longrightarrow> userCache su = us"
    using populateUsers_list[of ?fu us] assms(1) by (simp add: assms(3) saveUserCacheToFile_def)
  have u4: "requests su = requests s"
    using populateUsers_others[of us ?fu] by (simp add: assms(3) saveUserCacheToFile_def)
  have c0: "loadChannelCacheFromFile ?fc = Some \<lparr>channels_updatedAt = now, channels_map = cs\<rparr>"
    by (simp add: loadChannelCacheFromFile_def saveChannelCacheToFile_def)
  have c1: "resolveChannelId pages later ref ?fc = Returns cid sc"
    if "\<not> startsWith (CHR ''C'') ref" "\<not> startsWith (CHR ''G'') ref"
       "truthy (map_of (channelNameToIdCache s) (normalizeName ref)) = None"
       "truthy (map_of cs (normalizeName ref)) = Some cid"
    using that c0 by (simp add: resolveChannelId_def Let_def assms(4) saveChannelCacheToFile_def)
  have c2: "map_of (channelNameToIdCache sc) = map_of (channelNameToIdCache s) ++ map_of cs"
    using populateChannels_map[OF assms(2), of ?fc] by (simp add: assms(4) saveChannelCacheToFile_def)
  have c3: "channelNameToIdCache s = [] \<longrightarrow> channelNameToIdCache sc = cs"
    using populateChannels_list[of ?fc cs] assms(2) by (simp add: assms(4) saveChannelCacheToFile_def)
  have c4: "requests sc = requests s"
    using populateChannels_others[of cs ?fc] by (simp add: assms(4) saveChannelCacheToFile_def)
  show ?thesis using u1 u2 u3 u4 c0 c1 c2 c3 c4 by blast
qed

theorem snapshot_round_trip_witness:
  "prefetchUsers [] ''later'' False
     (saveUserCacheToFile ''now'' [(''U1'', ''Ann''), (''U2'', ''Bob'')] initialState)
   = Returns ()
      (initialState\<lparr>userCache := [(''U1'', ''Ann''), (''U2'', ''Bob'')],
         userCacheFile := Some \<lparr>users_updatedAt = ''now'', users_map = [(''U1'', ''Ann''), (''U2'', ''Bob'')]\<rparr>\<rparr>)
   \<and> resolveChannelId [] ''later'' ''#general''
     (saveChannelCacheToFile ''now'' [(''general'', ''C123''), (''random'', ''C456'')] initialState)
   = Returns ''C123''
      (initialState\<lparr>channelNameToIdCache := [(''general'', ''C123''), (''random'', ''C456'')],
         channelIdToNameCache := [(''C123'', ''general''), (''C456'', ''random'')],
         channelCacheFile := Some \<lparr>channels_updatedAt = ''now'',
            channels_map = [(''general'', ''C123''), (''random'', ''C456'')]\<rparr>\<rparr>)"
proof -
  have su: "initialState\<lparr>userCache := [(''U1'', ''Ann''), (''U2'', ''Bob'')],
         userCacheFile := Some \<lparr>users_updatedAt = ''now'', users_map = [(''U1'', ''Ann''), (''U2'', ''Bob'')]\<rparr>\<rparr>
       = populateUsers [(''U1'', ''Ann''), (''U2'', ''Bob'')]
           (saveUserCacheToFile ''now'' [(''U1'', ''Ann''), (''U2'', ''Bob'')] initialState)"
    by (simp add: initialState_def saveUserCacheToFile_def setUserCache_def)
  have sc: "initialState\<lparr>channelNameToIdCache := [(''general'', ''C123''), (''random'', ''C456'')],
         channelIdToNameCache := [(''C123'', ''general''), (''C456'', ''random'')],
         channelCacheFile := Some \<lparr>channels_updatedAt = ''now'',
            channels_map = [(''general'', ''C123''), (''random'', ''C456'')]\<rparr>\<rparr>
       = populateChannels [(''general'', ''C123''), (''random'', ''C456'')]
           (saveChannelCacheToFile ''now'' [(''general'', ''C123''), (''random'', ''C456'')] initialState)"
    by (simp add: initialState_def saveChannelCacheToFile_def setChannel_def)
  have d1: "distinct (map fst [(''U1'', ''Ann''), (''U2'', ''Bob'')])" by simp
  have d2: "distinct (map fst [(''general'', ''C123''), (''random'', ''C456'')])" by simp
  have pre: "\<not> startsWith (CHR ''C'') ''#general'' \<and> \<not> startsWith (CHR ''G'') ''#general''
            \<and> truthy (map_of (channelNameToIdCache initialState) (normalizeName ''#general'')) = None
            \<and> truthy (map_of [(''general'', ''C123''), (''random'', ''C456'')] (normalizeName ''#general'')) = Some ''C123''"
    by (simp add: startsWith_def normalizeName_def initialState_def)
  from snapshot_round_trip[OF d1 d2 su sc, of "[]" "''later''" "''#general''" "''C123''" "[]"] pre
  show ?thesis by blast
qed

subsection \<open>Rebuilding the channel index\<close>

lemma resolveChannelId_page_durable:
  "resolveChannelId_page chs acc s = (acc', s') \<Longrightarrow>
   channelCacheFile s' = channelCacheFile s \<and> userCacheFile s' = userCacheFile s
   \<and> requests s' = requests s \<and> userCache s' = userCache s"
  by (induction chs acc s rule: resolveChannelId_page.induct)
     (auto simp: setChannel_def split: option.splits)

text \<open>The loop never writes a snapshot, however it ends.\<close>

lemma resolveChannelId_loop_durable:
  assumes "resolveChannelId_loop pages cursor acc s = Returns v s' \<or>
           resolveChannelId_loop pages cursor acc s = Throws e s'"
  shows "channelCacheFile s' = channelCacheFile s \<and> userCacheFile s' = userCacheFile s"
  using assms
proof (induction pages arbitrary: cursor acc s)
  case Nil
  then show ?case by simp
next
  case (Cons r rs)
  show ?case
  proof (cases r)
    case (Rejects err)
    with Cons.prems show ?thesis by (auto simp: called_def)
  next
    case (Resolves p)
    obtain acc1 s2 where pg: "resolveChannelId_page (nullish (page_items p) []) acc
                                (called (ConversationsList cursor) s) = (acc1, s2)"
      by (cases "resolveChannelId_page (nullish (page_items p) []) acc (called (ConversationsList cursor) s)")
    from resolveChannelId_page_durable[OF pg]
    have d: "channelCacheFile s2 = channelCacheFile s \<and> userCacheFile s2 = userCacheFile s"
      by (simp add: called_def)
    show ?thesis
    proof (cases "page_ok p \<and> truthy (next_cursor p) \<noteq> None")
      case False
      with Cons.prems Resolves pg d show ?thesis
        by (auto simp: called_def Let_def split: if_splits)
    next
      case True
      with Cons.prems Resolves pg
      have "resolveChannelId_loop rs (truthy (next_cursor p)) acc1 s2 = Returns v s' \<or>
            resolveChannelId_loop rs (truthy (next_cursor p)) acc1 s2 = Throws e s'"
        by (simp add: Let_def)
      from Cons.IH[OF this] d show ?thesis by simp
    qed
  qed
qed

text \<open>A page that is not ok, reached through pages that are ok and have a cursor, is thrown.\<close>

lemma resolveChannelId_loop_fails:
  assumes "\<forall>p \<in> set pre. page_ok p \<and> truthy (next_cursor p) \<noteq> None"
      and "\<not> page_ok bad"
  shows "\<exists>s'. resolveChannelId_loop (map Resolves pre @ Resolves bad # rest) cursor acc s
           = Throws (Error (''Failed to list channels: '' @ nullish (page_error bad) ''unknown_error'')) s'"
  using assms
proof (induction pre arbitrary: cursor acc s)
  case Nil
  then show ?case by simp
next
  case (Cons p pre)
  obtain acc1 s2 where pg: "resolveChannelId_page (nullish (page_items p) []) acc
                                (called (ConversationsList cursor) s) = (acc1, s2)"
    by (cases "resolveChannelId_page (nullish (page_items p) []) acc (called (ConversationsList cursor) s)")
  from Cons.IH[of "truthy (next_cursor p)" acc1 s2] Cons.prems
  obtain s' where "resolveChannelId_loop (map Resolves pre @ Resolves bad # rest) (truthy (next_cursor p)) acc1 s2
           = Throws (Error (''Failed to list channels: '' @ nullish (page_error bad) ''unknown_error'')) s'"
    by auto
  with Cons.prems pg show ?case by (auto simp: Let_def)
qed

text \<open>A loop that returns has consumed a run of ok pages.\<close>

lemma resolveChannelId_loop_returns:
  assumes "resolveChannelId_loop pages cursor acc s = Returns v s'"
  shows "\<exists>ps later. pages = map Resolves ps @ later \<and> ps \<noteq> [] \<and> (\<forall>p \<in> set ps. page_ok p)
           \<and> truthy (next_cursor (last ps)) = None
           \<and> (\<forall>p \<in> set (butlast ps). truthy (next_cursor p) \<noteq> None)"
  using assms
proof (induction pages arbitrary: cursor acc s)
  case Nil
  then show ?case by simp
next
  case (Cons r rs)
  show ?case
  proof (cases r)
    case (Rejects err)
    with Cons.prems show ?thesis by simp
  next
    case (Resolves p)
    obtain acc1 s2 where pg: "resolveChannelId_page (nullish (page_items p) []) acc
                                (called (ConversationsList cursor) s) = (acc1, s2)"
      by (cases "resolveChannelId_page (nullish (page_items p) []) acc (called (ConversationsList cursor) s)")
    from Cons.prems Resolves have ok: "page_ok p" by (auto simp: Let_def split: if_splits)
    show ?thesis
    proof (cases "truthy (next_cursor p) = None")
      case True
      have "r # rs = map Resolves [p] @ rs \<and> [p] \<noteq> [] \<and> (\<forall>q \<in> set [p]. page_ok q)
           \<and> truthy (next_cursor (last [p])) = None
           \<and> (\<forall>q \<in> set (butlast [p]). truthy (next_cursor q) \<noteq> None)"
        using Resolves ok True by simp
      then show ?thesis by blast
    next
      case False
      with Cons.prems Resolves pg ok
      have "resolveChannelId_loop rs (truthy (next_cursor p)) acc1 s2 = Returns v s'"
        by (simp add: Let_def)
      from Cons.IH[OF this] obtain ps later where
        ps: "rs = map Resolves ps @ later" "ps \<noteq> []" "\<forall>p \<in> set ps. page_ok p"
          "truthy (next_cursor (last ps)) = None"
          "\<forall>p \<in> set (butlast ps). truthy (next_cursor p) \<noteq> None"
        by blast
      have "r # rs = map Resolves (p # ps) @ later \<and> p # ps \<noteq> [] \<and> (\<forall>q \<in> set (p # ps). page_ok q)
           \<and> truthy (next_cursor (last (p # ps))) = None
           \<and> (\<forall>q \<in> set (butlast (p # ps)). truthy (next_cursor q) \<noteq> None)"
        using ps Resolves ok False by simp
      then show ?thesis by blast
    qed
  qed
qed

lemma resolveChannelId_fetch_fails:
  assumes "\<forall>p \<in> set pre. page_ok p \<and> truthy (next_cursor p) \<noteq> None"
      and "\<not> page_ok bad"
  shows "\<exists>s'. resolveChannelId_fetch (map Resolves pre @ Resolves bad # rest) now ref s
           = Throws (Error (''Failed to list channels: '' @ nullish (page_error bad) ''unknown_error'')) s'
         \<and> channelCacheFile s' = channelCacheFile s \<and> userCacheFile s' = userCacheFile s"
proof -
  from resolveChannelId_loop_fails[OF assms, of rest None "[]" s] obtain s' where
    t: "resolveChannelId_loop (map Resolves pre @ Resolves bad # rest) None [] s
           = Throws (Error (''Failed to list channels: '' @ nullish (page_error bad) ''unknown_error'')) s'"
    by blast
  from resolveChannelId_loop_durable[OF disjI2, OF t] t show ?thesis
    by (simp add: resolveChannelId_fetch_def)
qed

lemma resolveChannelId_fetch_writes:
  assumes "resolveChannelId_fetch pages now ref s = Returns v s' \<or>
           resolveChannelId_fetch pages now ref s = Throws e s'"
      and "channelCacheFile s' \<noteq> channelCacheFile s"
  shows "\<exists>ps later. pages = map Resolves ps @ later \<and> ps \<noteq> [] \<and> (\<forall>p \<in> set ps. page_ok p)
           \<and> truthy (next_cursor (last ps)) = None
           \<and> (\<forall>p \<in> set (butlast ps). truthy (next_cursor p) \<noteq> None)"
proof (cases "resolveChannelId_loop pages None [] s")
  case (Returns all s1)
  from resolveChannelId_loop_returns[OF this] show ?thesis .
next
  case (Throws e1 s1)
  from resolveChannelId_loop_durable[OF disjI2, OF this] assms Throws show ?thesis
    by (auto simp: resolveChannelId_fetch_def)
next
  case Hangs
  with assms show ?thesis by (simp add: resolveChannelId_fetch_def)
qed

lemma populateChannels_durable:
  "channelCacheFile (populateChannels es s) = channelCacheFile s"
  by (induction es s rule: populateChannels.induct) (simp_all add: setChannel_def)

text \<open>
  C9. Let the name be one that neither the in-memory map nor the snapshot resolves, so
  that the channel list is fetched, and let the remote answer with pages that are ok and
  have a cursor, then with a page that is not ok. Then \<open>resolveChannelId\<close> throws the
  failure of that page and both snapshot files are what they were. And for any call of
  \<open>resolveChannelId\<close> whatever: if the channel snapshot is not what it was when the call
  ends, by return or by throw, then the loop has consumed a run of pages that were all ok,
  up to one without a cursor.
\<close>

theorem channel_rebuild_all_or_nothing:
  assumes "\<not> startsWith (CHR ''C'') ref" and "\<not> startsWith (CHR ''G'') ref"
      and "truthy (map_of (channelNameToIdCache s) (normalizeName ref)) = None"
      and "case loadChannelCacheFromFile s of
             None \<Rightarrow> True
           | Some cachedData \<Rightarrow> truthy (map_of (channels_map cachedData) (normalizeName ref)) = None"
      and "\<forall>p \<in> set pre. page_ok p \<and> truthy (next_cursor p) \<noteq> None"
      and "\<not> page_ok bad"
  shows "(\<exists>s'. resolveChannelId (map Resolves pre @ Resolves bad # rest) now ref s
            = Throws (Error (''Failed to list channels: '' @ nullish (page_error bad) ''unknown_error'')) s'
          \<and> channelCacheFile s' = channelCacheFile s \<and> userCacheFile s' = userCacheFile s)
       \<and> (\<forall>pages ref0 t v e t'.
             (resolveChannelId pages now ref0 t = Returns v t' \<or> resolveChannelId pages now ref0 t = Throws e t')
             \<and> channelCacheFile t' \<noteq> channelCacheFile t \<longrightarrow>
             (\<exists>ps later. pages = map Resolves ps @ later \<and> ps \<noteq> [] \<and> (\<forall>p \<in> set ps. page_ok p)
                \<and> truthy (next_cursor (last ps)) = None
                \<and> (\<forall>p \<in> set (butlast ps). truthy (next_cursor p) \<noteq> None)))"
proof -
  have reach: "resolveChannelId (map Resolves pre @ Resolves bad # rest) now ref s
               = resolveChannelId_fetch (map Resolves pre @ Resolves bad # rest) now ref s"
    using assms(1-4) by (simp add: resolveChannelId_def Let_def split: option.splits)
  have first: "\<exists>s'. resolveChannelId (map Resolves pre @ Resolves bad # rest) now ref s
            = Throws (Error (''Failed to list channels: '' @ nullish (page_error bad) ''unknown_error'')) s'
          \<and> channelCacheFile s' = channelCacheFile s \<and> userCacheFile s' = userCacheFile s"
    unfolding reach by (rule resolveChannelId_fetch_fails[OF assms(5,6)])
  have second: "\<exists>ps later. pages = map Resolves ps @ later \<and> ps \<noteq> [] \<and> (\<forall>p \<in> set ps. page_ok p)
                \<and> truthy (next_cursor (last ps)) = None
                \<and> (\<forall>p \<in> set (butlast ps). truthy (next_cursor p) \<noteq> None)"
    if run: "resolveChannelId pages now ref0 t = Returns v t' \<or> resolveChannelId pages now ref0 t = Throws e t'"
      and ch: "channelCacheFile t' \<noteq> channelCacheFile t"
    for pages ref0 t v e t'
  proof -
    have "resolveChannelId pages now ref0 t = resolveChannelId_fetch pages now ref0 t"
      using run ch
      by (auto simp: resolveChannelId_def Let_def populateChannels_durable loadChannelCacheFromFile_def
               split: if_splits option.splits)
    with run have "resolveChannelId_fetch pages now ref0 t = Returns v t' \<or>
                   resolveChannelId_fetch pages now ref0 t = Throws e t'"
      by simp
    from resolveChannelId_fetch_writes[OF this ch] show ?thesis .
  qed
  show ?thesis using first second by blast
qed


theorem channel_rebuild_all_or_nothing_witness:
  "resolveChannelId
     [Resolves (samplePage [\<lparr>channel_id = Some ''C123'', channel_name = Some ''general''\<rparr>] (Some ''c1'')),
      Resolves \<lparr>page_ok = False, page_error = Some ''ratelimited'', page_items = None, next_cursor = None\<rparr>]
     ''now'' ''#general''
     (initialState\<lparr>channelCacheFile := Some \<lparr>channels_updatedAt = ''before'', channels_map = [(''random'', ''C456'')]\<rparr>\<rparr>)
   = Throws (Error ''Failed to list channels: ratelimited'')
      (initialState\<lparr>channelNameToIdCache := [(''general'', ''C123'')],
         channelIdToNameCache := [(''C123'', ''general'')],
         channelCacheFile := Some \<lparr>channels_updatedAt = ''before'', channels_map = [(''random'', ''C456'')]\<rparr>,
         requests := [ConversationsList None, ConversationsList (Some ''c1'')]\<rparr>)"
proof -
  let ?s = "initialState\<lparr>channelCacheFile := Some \<lparr>channels_updatedAt = ''before'', channels_map = [(''random'', ''C456'')]\<rparr>\<rparr>"
  let ?p = "samplePage [\<lparr>channel_id = Some ''C123'', channel_name = Some ''general''\<rparr>] (Some ''c1'')"
  let ?bad = "\<lparr>page_ok = False, page_error = Some ''ratelimited'', page_items = (None :: Channel list option), next_cursor = None\<rparr>"
  have a: "\<not> startsWith (CHR ''C'') ''#general''" "\<not> startsWith (CHR ''G'') ''#general''"
    by (simp_all add: startsWith_def)
  have b: "truthy (map_of (channelNameToIdCache ?s) (normalizeName ''#general'')) = None"
    by (simp add: initialState_def)
  have c: "case loadChannelCacheFromFile ?s of
             None \<Rightarrow> True
           | Some cachedData \<Rightarrow> truthy (map_of (channels_map cachedData) (normalizeName ''#general'')) = None"
    by (simp add: loadChannelCacheFromFile_def normalizeName_def)
  have d: "\<forall>p \<in> set [?p]. page_ok p \<and> truthy (next_cursor p) \<noteq> None"
    by (simp add: samplePage_def)
  have e: "\<not> page_ok ?bad" by simp
  have run: "resolveChannelId (map Resolves [?p] @ Resolves ?bad # []) ''now'' ''#general'' ?s
   = Throws (Error ''Failed to list channels: ratelimited'')
      (initialState\<lparr>channelNameToIdCache := [(''general'', ''C123'')],
         channelIdToNameCache := [(''C123'', ''general'')],
         channelCacheFile := Some \<lparr>channels_updatedAt = ''before'', channels_map = [(''random'', ''C456'')]\<rparr>,
         requests := [ConversationsList None, ConversationsList (Some ''c1'')]\<rparr>)"
    by code_simp
  from channel_rebuild_all_or_nothing[OF a b c d e, of "[]" "''now''"] run
  show ?thesis by simp
qed

text \<open>The same holds for the rebuild by \<open>listChannels\<close>.\<close>

lemma listChannels_loop_durable:
  assumes "listChannels_loop pages cursor acc s = Returns v s' \<or>
           listChannels_loop pages cursor acc s = Throws e s'"
  shows "channelCacheFile s' = channelCacheFile s \<and> userCacheFile s' = userCacheFile s"
  using assms
proof (induction pages arbitrary: cursor acc s)
  case Nil
  then show ?case by simp
next
  case (Cons r rs)
  show ?case
  proof (cases r)
    case (Rejects err)
    with Cons.prems show ?thesis by (auto simp: called_def)
  next
    case (Resolves p)
    show ?thesis
    proof (cases "page_ok p \<and> truthy (next_cursor p) \<noteq> None")
      case False
      with Cons.prems Resolves show ?thesis
        by (auto simp: called_def Let_def split: if_splits)
    next
      case True
      with Cons.prems Resolves
      have "listChannels_loop rs (truthy (next_cursor p))
              (listChannels_page (nullish (page_items p) []) acc) (called (ConversationsList cursor) s) = Returns v s' \<or>
            listChannels_loop rs (truthy (next_cursor p))
              (listChannels_page (nullish (page_items p) []) acc) (called (ConversationsList cursor) s) = Throws e s'"
        by (simp add: Let_def)
      from Cons.IH[OF this] show ?thesis by (simp add: called_def)
    qed
  qed
qed

lemma listChannels_failure_keeps_snapshot:
  assumes "listChannels byName pages now refreshCache s = Throws e s'"
  shows "channelCacheFile s' = channelCacheFile s \<and> userCacheFile s' = userCacheFile s"
proof -
  from assms have "listChannels_loop pages None [] s = Throws e s'"
    by (auto simp: listChannels_def listChannels_fetch_def split: option.splits outcome.splits if_splits)
  from listChannels_loop_durable[OF disjI2, OF this] show ?thesis .
qed

end
